theory Spec2Isabelle
  imports Main "HOL-Library.Multiset" "HOL-Library.Sublist"
begin

section \<open>The web application (app/main.py, app/models.py)\<close>

subsection \<open>Rows and store\<close>

text \<open>
  Datetimes are abstracted to integers (a count of seconds); \<open>None\<close> is SQL NULL.
  Every statement sent to the database is taken to succeed: the store is the reliable
  collaborator the handlers assume.
\<close>

type_synonym timestamp = int

text \<open>The columns of \<open>models.Report\<close>, in the order of the class body.\<close>

record report =
  r_id :: int
  r_report_type :: string
  r_source_from :: "string option"
  r_subject :: "string option"
  r_message_content :: string
  r_received_at :: "timestamp option"
  r_reporter_name :: "string option"
  r_reporter_contact :: "string option"
  r_suggested_classification :: string
  r_classification :: string
  r_classified_by :: "string option"
  r_classified_on :: "timestamp option"
  r_is_verified :: bool
  r_verified_by :: "string option"
  r_verified_on :: "timestamp option"
  r_is_flagged :: bool
  r_flag_reason :: "string option"
  r_flagged_on :: "timestamp option"
  r_flagged_by :: "string option"
  r_created_on :: timestamp
  r_updated_on :: timestamp
  r_deleted :: bool

text \<open>The columns of \<open>models.Attachment\<close>.\<close>

record attachment =
  a_id :: int
  a_report_id :: int
  a_original_name :: string
  a_storage_path :: string
  a_mime_type :: "string option"
  a_size_bytes :: "int option"
  a_created_on :: timestamp
  a_deleted :: bool

text \<open>
  The database of the web application: the two tables that \<open>Base.metadata\<close> declares.
  There is no other table, in particular none for audit entries.
\<close>

record store =
  reports :: "report list"
  attachments :: "attachment list"

datatype response =
    RedirectResponse string nat
  | FileResponse string string string

text \<open>
  The exceptions that end a handler: \<open>DataError\<close> from the database for a value
  it cannot take, \<open>ValueError\<close> from the standard library's URL parser.
\<close>

datatype error = ValueError | DataError

text \<open>\<open>db.get(Report, id)\<close> and \<open>db.get(Attachment, id)\<close>: lookup by primary key.\<close>

definition get_report :: "store \<Rightarrow> int \<Rightarrow> report option" where
  "get_report st i = find (\<lambda>r. r_id r = i) (reports st)"

definition get_attachment :: "store \<Rightarrow> int \<Rightarrow> attachment option" where
  "get_attachment st i = find (\<lambda>a. a_id a = i) (attachments st)"

text \<open>
  \<open>db.commit()\<close> after attribute assignments on a loaded report: the unit of work
  sends an UPDATE for the row only when some mapped column changed, and the UPDATE sets
  \<open>updated_on\<close> to the database clock (\<open>onupdate=func.now()\<close>).
\<close>

definition commit_report :: "store \<Rightarrow> timestamp \<Rightarrow> report \<Rightarrow> report \<Rightarrow> store" where
  "commit_report st db_now old new =
     (if new = old then st
      else st\<lparr>reports :=
             map (\<lambda>r. if r_id r = r_id old then new\<lparr>r_updated_on := db_now\<rparr> else r)
               (reports st)\<rparr>)"

subsection \<open>admin\_action\<close>

text \<open>
  \<open>admin_user\<close> is the name \<open>require_admin\<close> returned; \<open>now\<close> is
  \<open>datetime.utcnow()\<close>, \<open>db_now\<close> the database clock. In the delete branch the
  source also assigns \<open>report.deleted_on = now\<close>; \<open>models.Report\<close> maps no such
  column, so the assignment sets a plain attribute of the Python object that the
  commit does not write, and the stored row changes in \<open>deleted\<close> only.
\<close>

definition admin_action ::
  "store \<Rightarrow> int \<Rightarrow> string \<Rightarrow> string \<Rightarrow> string \<Rightarrow> timestamp \<Rightarrow> timestamp \<Rightarrow> store \<times> response"
where
  "admin_action st report_id action reason admin_user now db_now =
     (case get_report st report_id of
        None \<Rightarrow> (st, RedirectResponse ''/admin'' 303)
      | Some report \<Rightarrow>
          if r_deleted report then (st, RedirectResponse ''/admin'' 303)
          else
            let report' =
              (if action = ''flag'' then
                 report\<lparr>r_is_flagged := True,
                        r_flag_reason := Some (if reason = [] then ''flagged by admin'' else reason),
                        r_flagged_on := Some now,
                        r_flagged_by := Some admin_user\<rparr>
               else if action = ''unflag'' then
                 report\<lparr>r_is_flagged := False,
                        r_flag_reason := None,
                        r_flagged_on := None,
                        r_flagged_by := None\<rparr>
               else if action = ''delete'' then
                 report\<lparr>r_deleted := True\<rparr>
               else report)
            in (commit_report st db_now report report', RedirectResponse ''/admin'' 303))"

subsection \<open>The text filter\<close>

text \<open>
  \<open>column.ilike(pattern)\<close> is the database's ILIKE, modelled as PostgreSQL
  evaluates it. In the pattern \<open>%\<close> stands for any run of characters, \<open>_\<close> for
  any one character, and a backslash makes the character after it stand for itself;
  any other character stands for itself. Characters that stand for themselves are
  compared after case folding. The folding is the database's, under its locale, and
  is a parameter here: \<open>tolower c\<close> is the folded form of \<open>c\<close>. The handlers
  put the user's text between two \<open>%\<close> without escaping it, so \<open>%\<close>, \<open>_\<close> and
  the backslash keep their meaning inside it.
\<close>

datatype like_token = AnyRun | AnyOne | Literal char

definition like_token_of :: "char \<Rightarrow> like_token" where
  "like_token_of p =
     (if p = CHR ''%'' then AnyRun else if p = CHR ''_'' then AnyOne else Literal p)"

definition cons_token :: "like_token \<Rightarrow> error + like_token list \<Rightarrow> error + like_token list" where
  "cons_token t r = (case r of Inl e \<Rightarrow> Inl e | Inr ts \<Rightarrow> Inr (t # ts))"

text \<open>
  Reading a pattern. A pattern that ends in a lone backslash is refused by the
  database ("LIKE pattern must not end with escape character").
\<close>

fun parse_like :: "string \<Rightarrow> error + like_token list" where
  "parse_like [] = Inr []"
| "parse_like [p] = (if p = CHR 0x5C then Inl DataError else Inr [like_token_of p])"
| "parse_like (p # c # rest) =
     (if p = CHR 0x5C then cons_token (Literal c) (parse_like rest)
      else cons_token (like_token_of p) (parse_like (c # rest)))"

fun like_tokens :: "(char \<Rightarrow> char) \<Rightarrow> like_token list \<Rightarrow> string \<Rightarrow> bool" where
  "like_tokens tolower [] s = (s = [])"
| "like_tokens tolower (AnyRun # ts) [] = like_tokens tolower ts []"
| "like_tokens tolower (AnyRun # ts) (c # cs) =
     (like_tokens tolower ts (c # cs) \<or> like_tokens tolower (AnyRun # ts) cs)"
| "like_tokens tolower (AnyOne # ts) [] = False"
| "like_tokens tolower (AnyOne # ts) (c # cs) = like_tokens tolower ts cs"
| "like_tokens tolower (Literal p # ts) [] = False"
| "like_tokens tolower (Literal p # ts) (c # cs) =
     (tolower p = tolower c \<and> like_tokens tolower ts cs)"

text \<open>A NULL column never matches.\<close>

definition ilike :: "(char \<Rightarrow> char) \<Rightarrow> string option \<Rightarrow> string \<Rightarrow> error + bool" where
  "ilike tolower col pat =
     (case col of
        None \<Rightarrow> Inr False
      | Some s \<Rightarrow>
          (case parse_like pat of
             Inl e \<Rightarrow> Inl e
           | Inr ts \<Rightarrow> Inr (like_tokens tolower ts s)))"

text \<open>
  \<open>or_(message_content.ilike(like), source_from.ilike(like), subject.ilike(like))\<close>
  with \<open>like = f"%{q}%"\<close>, as both \<open>search_page\<close> and \<open>admin_page\<close> build it.
  The pattern ends in the \<open>%\<close> that the handler appends, so it never ends in a lone
  backslash and the database never refuses it (\<open>wrapped_pattern_parses\<close> below): the
  condition is a truth value.
\<close>

definition text_filter :: "(char \<Rightarrow> char) \<Rightarrow> string \<Rightarrow> report \<Rightarrow> bool" where
  "text_filter tolower q r =
     (let like = ''%'' @ q @ ''%''
      in ilike tolower (Some (r_message_content r)) like = Inr True
         \<or> ilike tolower (r_source_from r) like = Inr True
         \<or> ilike tolower (r_subject r) like = Inr True)"

text \<open>
  The text condition in the words of the specification: the text occurs in the
  message body, the source identifier or the subject, letter case aside. An absent
  field contains nothing.
\<close>

definition contains_ci :: "(char \<Rightarrow> char) \<Rightarrow> string \<Rightarrow> string option \<Rightarrow> bool" where
  "contains_ci tolower q field =
     (case field of
        None \<Rightarrow> False
      | Some s \<Rightarrow> sublist (map tolower q) (map tolower s))"

definition spec_text_condition :: "(char \<Rightarrow> char) \<Rightarrow> string \<Rightarrow> report \<Rightarrow> bool" where
  "spec_text_condition tolower q r =
     (contains_ci tolower q (Some (r_message_content r))
      \<or> contains_ci tolower q (r_source_from r)
      \<or> contains_ci tolower q (r_subject r))"

text \<open>
  The characters with a meaning of their own in a pattern.
\<close>

definition pattern_char :: "char \<Rightarrow> bool" where
  "pattern_char c = (c = CHR ''%'' \<or> c = CHR ''_'' \<or> c = CHR 0x5C)"

text \<open>
  The folding of the C locale: the letters A to Z, and nothing else.
\<close>

definition lower_char :: "char \<Rightarrow> char" where
  "lower_char c =
     (let n = (of_char c :: nat) in if 65 \<le> n \<and> n \<le> 90 then char_of (n + 32) else c)"

text \<open>
  \<open>ORDER BY created_on DESC\<close>. Rows with equal \<open>created_on\<close> keep their table
  order here; the database promises no order among them.
\<close>

definition order_by_created_desc :: "report list \<Rightarrow> report list" where
  "order_by_created_desc rs = sort_key (\<lambda>r. - r_created_on r) rs"

subsection \<open>search\_page\<close>

text \<open>
  The WHERE clause of the query. The statement is built with \<open>limit(200)\<close> first
  and the conditions on type and text added afterwards; they join the WHERE clause of
  the same SELECT, so the limit applies to the rows that pass all conditions.
\<close>

definition search_where ::
  "(char \<Rightarrow> char) \<Rightarrow> string option \<Rightarrow> string option \<Rightarrow> report \<Rightarrow> bool"
where
  "search_where tolower q report_type r =
     (\<not> r_deleted r \<and> \<not> r_is_flagged r
      \<and> (case report_type of
            None \<Rightarrow> True
          | Some t \<Rightarrow> if t \<noteq> [] \<and> t \<noteq> ''all'' then r_report_type r = t else True)
      \<and> (case q of
            None \<Rightarrow> True
          | Some s \<Rightarrow> if s \<noteq> [] then text_filter tolower s r else True))"

text \<open>
  \<open>attachments_map\<close>: the non-deleted attachments of the listed reports, grouped by
  report id in table order; a report without one is not a key of the dictionary.
\<close>

definition attachments_map :: "store \<Rightarrow> int list \<Rightarrow> int \<Rightarrow> attachment list option" where
  "attachments_map st report_ids i =
     (let atts = filter (\<lambda>a. a_report_id a \<in> set report_ids \<and> \<not> a_deleted a \<and> a_report_id a = i)
                   (attachments st)
      in if atts = [] then None else Some atts)"

record search_context =
  sc_reports :: "report list"
  sc_attachments_map :: "int \<Rightarrow> attachment list option"
  sc_q :: string
  sc_report_type :: string

definition search_page ::
  "store \<Rightarrow> (char \<Rightarrow> char) \<Rightarrow> string option \<Rightarrow> string option \<Rightarrow> search_context"
where
  "search_page st tolower q report_type =
     (let rows = take 200 (order_by_created_desc
                   (filter (search_where tolower q report_type) (reports st)))
      in \<lparr>sc_reports = rows,
          sc_attachments_map = attachments_map st (map r_id rows),
          sc_q = (case q of None \<Rightarrow> [] | Some s \<Rightarrow> s),
          sc_report_type =
            (case report_type of None \<Rightarrow> ''all'' | Some t \<Rightarrow> if t = [] then ''all'' else t)\<rparr>)"

subsection \<open>admin\_page\<close>

definition admin_where ::
  "(char \<Rightarrow> char) \<Rightarrow> string \<Rightarrow> int \<Rightarrow> string \<Rightarrow> report \<Rightarrow> bool"
where
  "admin_where tolower status show_deleted q r =
     ((if show_deleted = 0 then \<not> r_deleted r else True)
      \<and> (if status = ''flagged'' then r_is_flagged r
         else if status = ''unflagged'' then \<not> r_is_flagged r
         else True)
      \<and> (if q \<noteq> [] then text_filter tolower q r else True))"

record admin_context =
  ac_reports :: "report list"
  ac_admin_user :: string
  ac_status :: string
  ac_show_deleted :: int
  ac_q :: string
  ac_page :: int
  ac_total_pages :: int
  ac_total :: int
  ac_total_all :: int
  ac_total_flagged :: int
  ac_total_deleted :: int

text \<open>
  The page of rows is fetched with \<open>OFFSET (page - 1) * 25\<close>. The page number is
  an unbounded integer of the request; the database takes the offset as a 64-bit
  integer and refuses a larger one, which ends the handler with the exception.
\<close>

definition admin_page ::
  "store \<Rightarrow> (char \<Rightarrow> char) \<Rightarrow> string \<Rightarrow> string \<Rightarrow> int \<Rightarrow> string \<Rightarrow> int
     \<Rightarrow> error + admin_context"
where
  "admin_page st tolower admin_user status show_deleted q page0 =
     (let page_size = (25::int);
          page = max page0 1;
          total_all = int (length (reports st));
          total_flagged = int (length (filter r_is_flagged (reports st)));
          total_deleted = int (length (filter r_deleted (reports st)));
          matching = filter (admin_where tolower status show_deleted q) (reports st);
          total = int (length matching);
          offset = (page - 1) * page_size
      in if 9223372036854775807 < offset then Inl DataError
         else
           let rows = take (nat page_size) (drop (nat offset) (order_by_created_desc matching));
               total_pages = max ((total + page_size - 1) div page_size) 1
           in Inr \<lparr>ac_reports = rows,
                   ac_admin_user = admin_user,
                   ac_status = status,
                   ac_show_deleted = show_deleted,
                   ac_q = q,
                   ac_page = page,
                   ac_total_pages = total_pages,
                   ac_total = total,
                   ac_total_all = total_all,
                   ac_total_flagged = total_flagged,
                   ac_total_deleted = total_deleted\<rparr>)"

subsection \<open>download\_attachment\<close>

definition download_attachment :: "store \<Rightarrow> int \<Rightarrow> response" where
  "download_attachment st attachment_id =
     (case get_attachment st attachment_id of
        None \<Rightarrow> RedirectResponse ''/'' 303
      | Some att \<Rightarrow>
          if a_deleted att then RedirectResponse ''/'' 303
          else
            (case get_report st (a_report_id att) of
               None \<Rightarrow> RedirectResponse ''/'' 303
             | Some report \<Rightarrow>
                 if r_deleted report \<or> r_is_flagged report then RedirectResponse ''/'' 303
                 else FileResponse (a_storage_path att) (a_original_name att)
                        (case a_mime_type att of
                           None \<Rightarrow> ''application/octet-stream''
                         | Some m \<Rightarrow> if m = [] then ''application/octet-stream'' else m)))"

subsection \<open>submit\_report\<close>

text \<open>\<open>x or None\<close> on a form string.\<close>

definition or_none :: "string \<Rightarrow> string option" where
  "or_none s = (if s = [] then None else Some s)"

text \<open>The autoincrement primary key of an inserted row.\<close>

definition next_id :: "int list \<Rightarrow> int" where
  "next_id ids = foldr max ids 0 + 1"

text \<open>
  An uploaded file as the handler uses it: the client's file name, the content type,
  the number of bytes written to disk, and \<open>safe_name\<close>, the name
  \<open>uuid4().hex + Path(original_name).suffix\<close> that the run time produced.
\<close>

record upload =
  up_filename :: string
  up_content_type :: "string option"
  up_size :: int
  up_safe_name :: string

text \<open>
  \<open>fromisoformat\<close> is the interpreter's \<open>datetime.fromisoformat\<close>, \<open>None\<close> where it
  raises ValueError. \<open>db_now\<close> and \<open>db_now2\<close> are the database clock at the two
  commits. Columns the constructor leaves out take their server defaults.
\<close>

definition submit_report ::
  "(string \<Rightarrow> timestamp option) \<Rightarrow> store \<Rightarrow> string \<Rightarrow> string \<Rightarrow> string \<Rightarrow> string \<Rightarrow> string
     \<Rightarrow> string \<Rightarrow> string \<Rightarrow> upload option \<Rightarrow> timestamp \<Rightarrow> timestamp \<Rightarrow> store \<times> response"
where
  "submit_report fromisoformat st report_type source_from subject message_content received_at
       reporter_name reporter_contact attachment db_now db_now2 =
     (let parsed_received_at = (if received_at \<noteq> [] then fromisoformat received_at else None);
          report =
            \<lparr>r_id = next_id (map r_id (reports st)),
             r_report_type = report_type,
             r_source_from = or_none source_from,
             r_subject = or_none subject,
             r_message_content = message_content,
             r_received_at = parsed_received_at,
             r_reporter_name = or_none reporter_name,
             r_reporter_contact = or_none reporter_contact,
             r_suggested_classification = ''unclassified'',
             r_classification = ''unclassified'',
             r_classified_by = None,
             r_classified_on = None,
             r_is_verified = False,
             r_verified_by = None,
             r_verified_on = None,
             r_is_flagged = False,
             r_flag_reason = None,
             r_flagged_on = None,
             r_flagged_by = None,
             r_created_on = db_now,
             r_updated_on = db_now,
             r_deleted = False\<rparr>;
          st1 = st\<lparr>reports := reports st @ [report]\<rparr>;
          st2 =
            (case attachment of
               None \<Rightarrow> st1
             | Some up \<Rightarrow>
                 if up_filename up = [] then st1
                 else st1\<lparr>attachments := attachments st1 @
                        [\<lparr>a_id = next_id (map a_id (attachments st1)),
                          a_report_id = r_id report,
                          a_original_name = up_filename up,
                          a_storage_path = ''uploads/'' @ up_safe_name up,
                          a_mime_type = up_content_type up,
                          a_size_bytes = Some (up_size up),
                          a_created_on = db_now2,
                          a_deleted = False\<rparr>]\<rparr>)
      in (st2, RedirectResponse ''/'' 303))"

section \<open>The Streamlit application (legacy\_streamlit\_app.py)\<close>

subsection \<open>Timezone conversion\<close>

text \<open>
  The timezone database is a parameter: \<open>tzdb name\<close> is the zone that
  \<open>ZoneInfo(name)\<close> loads, \<open>None\<close> where the constructor raises. A zone is the UTC
  offset before its first transition and its transitions in ascending order, each the
  UTC instant it happens and the offset from then on. All times are in seconds, and
  far enough from \<open>datetime.min\<close> and \<open>datetime.max\<close> for the library's
  arithmetic not to overflow. The model follows the branch taken when \<open>zoneinfo\<close>
  imports (\<open>ZoneInfo\<close> is not None).
\<close>

record zone =
  z_initial :: int
  z_trans :: "(int \<times> int) list"

type_synonym tzdb = "string \<Rightarrow> zone option"

datatype tzinfo = PytzUtc | ZoneInfo string

text \<open>
  A timezone-aware datetime: its wall-clock reading, the UTC offset its tzinfo gives
  for it, and the tzinfo. The instant it denotes is \<open>dt_wall - dt_utcoffset\<close>.
\<close>

record datetime =
  dt_wall :: int
  dt_utcoffset :: int
  dt_tzinfo :: tzinfo

text \<open>The offset in force at a UTC instant (\<open>ZoneInfo.fromutc\<close>).\<close>

fun offset_at_utc :: "int \<Rightarrow> (int \<times> int) list \<Rightarrow> int \<Rightarrow> int" where
  "offset_at_utc off [] u = off"
| "offset_at_utc off ((t, off') # ts) u = (if u < t then off else offset_at_utc off' ts u)"

text \<open>
  The offset \<open>ZoneInfo.utcoffset\<close> gives for a wall-clock reading with \<open>fold = 0\<close>,
  which is what \<open>datetime.combine\<close> produces: a transition counts from the wall time
  \<open>t + max off off'\<close> on, so a reading that a forward jump skips, and the first of two
  equal readings around a backward jump, take the offset before the transition.
\<close>

fun offset_at_wall :: "int \<Rightarrow> (int \<times> int) list \<Rightarrow> int \<Rightarrow> int" where
  "offset_at_wall off [] w = off"
| "offset_at_wall off ((t, off') # ts) w =
     (if w < t + max off off' then off else offset_at_wall off' ts w)"

text \<open>\<open>naive_dt.replace(tzinfo=ZoneInfo(name))\<close>\<close>

definition replace_tzinfo :: "zone \<Rightarrow> string \<Rightarrow> int \<Rightarrow> datetime" where
  "replace_tzinfo z name naive_dt =
     \<lparr>dt_wall = naive_dt,
      dt_utcoffset = offset_at_wall (z_initial z) (z_trans z) naive_dt,
      dt_tzinfo = ZoneInfo name\<rparr>"

text \<open>\<open>naive_dt.replace(tzinfo=pytz.utc)\<close>\<close>

definition replace_tzinfo_utc :: "int \<Rightarrow> datetime" where
  "replace_tzinfo_utc naive_dt = \<lparr>dt_wall = naive_dt, dt_utcoffset = 0, dt_tzinfo = PytzUtc\<rparr>"

text \<open>
  \<open>dt.astimezone(ZoneInfo(name))\<close>: the same instant read in the zone; a datetime
  that already carries this tzinfo is returned as it is.
\<close>

definition astimezone :: "zone \<Rightarrow> string \<Rightarrow> datetime \<Rightarrow> datetime" where
  "astimezone z name dt =
     (if dt_tzinfo dt = ZoneInfo name then dt
      else
        let u = dt_wall dt - dt_utcoffset dt;
            off = offset_at_utc (z_initial z) (z_trans z) u
        in \<lparr>dt_wall = u + off, dt_utcoffset = off, dt_tzinfo = ZoneInfo name\<rparr>)"

definition convert_local_to_utc :: "tzdb \<Rightarrow> int \<Rightarrow> string option \<Rightarrow> datetime" where
  "convert_local_to_utc tzdb naive_dt tz_name =
     (case tz_name of
        None \<Rightarrow> replace_tzinfo_utc naive_dt
      | Some name \<Rightarrow>
          (case tzdb name of
             None \<Rightarrow> replace_tzinfo_utc naive_dt
           | Some z \<Rightarrow>
               (case tzdb ''UTC'' of
                  None \<Rightarrow> replace_tzinfo_utc naive_dt
                | Some zu \<Rightarrow> astimezone zu ''UTC'' (replace_tzinfo z name naive_dt))))"

text \<open>
  When \<open>tz_name\<close> is None or empty the \<open>if\<close> inside the \<open>try\<close> is not taken, no
  exception is raised, and the function runs off its end: it returns None.
\<close>

definition convert_utc_to_local :: "tzdb \<Rightarrow> datetime option \<Rightarrow> string option \<Rightarrow> datetime option" where
  "convert_utc_to_local tzdb utc_dt tz_name =
     (case utc_dt of
        None \<Rightarrow> None
      | Some dt \<Rightarrow>
          (case tz_name of
             None \<Rightarrow> None
           | Some name \<Rightarrow>
               if name = [] then None
               else
                 (case tzdb name of
                    None \<Rightarrow> Some dt
                  | Some z \<Rightarrow> Some (astimezone z name dt))))"

text \<open>
  Whether a wall-clock reading falls into the stretch that a forward jump of the zone
  skips: the readings from \<open>t + off\<close> up to \<open>t + off'\<close> at a transition that raises
  the offset from \<open>off\<close> to \<open>off'\<close>.
\<close>

fun skipped_reading :: "int \<Rightarrow> (int \<times> int) list \<Rightarrow> int \<Rightarrow> bool" where
  "skipped_reading off [] w = False"
| "skipped_reading off ((t, off') # ts) w =
     ((t + off \<le> w \<and> w < t + off') \<or> skipped_reading off' ts w)"

text \<open>
  America/New\_York in 2024 as the IANA database has it: EST (UTC-5) until
  2024-03-10 07:00:00 UTC, EDT (UTC-4) until 2024-11-03 06:00:00 UTC, EST after.
\<close>

definition new_york_2024 :: zone where
  "new_york_2024 = \<lparr>z_initial = - 18000, z_trans = [(1710054000, - 14400), (1730613600, - 18000)]\<rparr>"

definition utc_zone :: zone where
  "utc_zone = \<lparr>z_initial = 0, z_trans = []\<rparr>"

definition tzdb_2024 :: tzdb where
  "tzdb_2024 name =
     (if name = ''America/New_York'' then Some new_york_2024
      else if name = ''UTC'' then Some utc_zone
      else None)"

subsection \<open>Rows and store\<close>

text \<open>
  The tables are reflected from the database; a row carries the columns that the
  handlers modelled here read or write.
\<close>

record legacy_report =
  lr_id :: int
  lr_message_content :: "string option"
  lr_ocr_preview :: "string option"
  lr_contain_link :: bool
  lr_created_on :: timestamp
  lr_updated_on :: timestamp
  lr_deleted :: bool
  lr_deleted_on :: "timestamp option"

record report_link =
  rl_report_id :: int
  rl_url :: string
  rl_domain :: string
  rl_safety :: "string option"
  rl_created_on :: timestamp
  rl_updated_on :: timestamp
  rl_deleted :: bool

record audit_entry =
  au_report_id :: int
  au_performed_by :: "int option"
  au_action :: string
  au_comment :: string
  au_created_on :: timestamp
  au_updated_on :: timestamp
  au_deleted :: bool

record legacy_store =
  l_reports :: "legacy_report list"
  l_report_links :: "report_link list"
  l_report_audit :: "audit_entry list"

text \<open>\<open>insert_simple\<close>: one INSERT in a transaction of its own.\<close>

definition insert_simple :: "'a list \<Rightarrow> 'a \<Rightarrow> 'a list" where
  "insert_simple table payload = table @ [payload]"

subsection \<open>Logging an audit action\<close>

text \<open>
  The audit part of the "Attachment \& Audit" form. The handler runs up to two
  transactions, one after the other: the audit INSERT, then for a delete the UPDATE of
  the report. \<open>audit_submit_commits\<close> lists the database states they commit, in
  order; \<open>audit_submit\<close> is the state the handler leaves. \<open>report_id\<close> is the
  entry chosen in the form's list of non-deleted reports.
\<close>

definition audit_submit_commits ::
  "legacy_store \<Rightarrow> int \<Rightarrow> int option \<Rightarrow> string \<Rightarrow> string \<Rightarrow> timestamp \<Rightarrow> legacy_store list"
where
  "audit_submit_commits st report_id performed_by action comment now_utc =
     (if action \<noteq> ''none'' then
        let st1 = st\<lparr>l_report_audit :=
                     insert_simple (l_report_audit st)
                       \<lparr>au_report_id = report_id,
                        au_performed_by = performed_by,
                        au_action = action,
                        au_comment = comment,
                        au_created_on = now_utc,
                        au_updated_on = now_utc,
                        au_deleted = False\<rparr>\<rparr>
        in if action = ''delete'' then
             [st1,
              st1\<lparr>l_reports :=
                    map (\<lambda>r. if lr_id r = report_id
                              then r\<lparr>lr_deleted := True,
                                     lr_deleted_on := Some now_utc,
                                     lr_updated_on := now_utc\<rparr>
                              else r)
                      (l_reports st1)\<rparr>]
           else [st1]
      else [])"

definition audit_submit ::
  "legacy_store \<Rightarrow> int \<Rightarrow> int option \<Rightarrow> string \<Rightarrow> string \<Rightarrow> timestamp \<Rightarrow> legacy_store"
where
  "audit_submit st report_id performed_by action comment now_utc =
     last (st # audit_submit_commits st report_id performed_by action comment now_utc)"

subsection \<open>extract\_urls\<close>

text \<open>
  The pattern is
  \<^verbatim>\<open>https?://[^\s<>"'\)\]]+|(?:www\.)?[a-zA-Z0-9.-]+\.[a-z]{2,}(?:/[^\s]*)?\<close>.
  A character of a string stands for the code point of the same number. Each
  \<open>match_\<close> function gives the length of what a piece of the pattern matches at the
  start of its argument, following the backtracking matcher's order of attempts, and
  \<open>None\<close> where it does not match.
\<close>

text \<open>\<open>\s\<close>: the white space among the first 256 code points.\<close>

definition is_space :: "char \<Rightarrow> bool" where
  "is_space c =
     (let n = (of_char c :: nat)
      in (9 \<le> n \<and> n \<le> 13) \<or> (28 \<le> n \<and> n \<le> 32) \<or> n = 133 \<or> n = 160)"

text \<open>The class \<^verbatim>\<open>[^\s<>"'\)\]]\<close>.\<close>

definition url_char :: "char \<Rightarrow> bool" where
  "url_char c =
     (\<not> is_space c \<and> c \<noteq> CHR ''<'' \<and> c \<noteq> CHR ''>'' \<and> c \<noteq> CHR 0x22 \<and> c \<noteq> CHR 0x27
      \<and> c \<noteq> CHR '')'' \<and> c \<noteq> CHR '']'')"

definition lower_az :: "char \<Rightarrow> bool" where
  "lower_az c = (let n = (of_char c :: nat) in 97 \<le> n \<and> n \<le> 122)"

text \<open>The class \<^verbatim>\<open>[a-zA-Z0-9.-]\<close>.\<close>

definition domain_char :: "char \<Rightarrow> bool" where
  "domain_char c =
     (let n = (of_char c :: nat)
      in (97 \<le> n \<and> n \<le> 122) \<or> (65 \<le> n \<and> n \<le> 90) \<or> (48 \<le> n \<and> n \<le> 57)
         \<or> c = CHR ''.'' \<or> c = CHR ''-'')"

text \<open>First alternative: \<^verbatim>\<open>https?://\<close> and then one or more \<open>url_char\<close>, as many as there are.\<close>

definition match_scheme_url :: "string \<Rightarrow> nat option" where
  "match_scheme_url s =
     (let k = (if take 8 s = ''https://'' then Some 8
               else if take 7 s = ''http://'' then Some 7
               else None)
      in case k of
           None \<Rightarrow> None
         | Some k \<Rightarrow>
             (let n = length (takeWhile url_char (drop k s))
              in if n = 0 then None else Some (k + n)))"

text \<open>
  \<^verbatim>\<open>\.[a-z]{2,}(?:/[^\s]*)?\<close>: a dot, all the lower-case letters that follow (two at
  least), and a path if a slash comes next.
\<close>

definition match_tld_path :: "string \<Rightarrow> nat option" where
  "match_tld_path s =
     (case s of
        [] \<Rightarrow> None
      | c # rest \<Rightarrow>
          if c = CHR ''.'' then
            (let m = length (takeWhile lower_az rest)
             in if m < 2 then None
                else Some (1 + m +
                       (case drop m rest of
                          [] \<Rightarrow> 0
                        | d # path \<Rightarrow>
                            if d = CHR ''/''
                            then 1 + length (takeWhile (\<lambda>x. \<not> is_space x) path)
                            else 0)))
          else None)"

text \<open>
  \<^verbatim>\<open>[a-zA-Z0-9.-]+\<close> followed by the rest: the class first takes \<open>k\<close> characters, the
  whole run, and gives them back one at a time until the rest matches.
\<close>

fun match_domain_from :: "nat \<Rightarrow> string \<Rightarrow> nat option" where
  "match_domain_from 0 s = None"
| "match_domain_from (Suc k) s =
     (case match_tld_path (drop (Suc k) s) of
        Some n \<Rightarrow> Some (Suc k + n)
      | None \<Rightarrow> match_domain_from k s)"

definition match_domain :: "string \<Rightarrow> nat option" where
  "match_domain s = match_domain_from (length (takeWhile domain_char s)) s"

text \<open>Second alternative: the optional \<^verbatim>\<open>www\.\<close> is tried taken first, then left out.\<close>

definition match_bare_url :: "string \<Rightarrow> nat option" where
  "match_bare_url s =
     (if take 4 s = ''www.'' then
        (case match_domain (drop 4 s) of
           Some n \<Rightarrow> Some (4 + n)
         | None \<Rightarrow> match_domain s)
      else match_domain s)"

definition match_url :: "string \<Rightarrow> nat option" where
  "match_url s =
     (case match_scheme_url s of
        Some n \<Rightarrow> Some n
      | None \<Rightarrow> match_bare_url s)"

text \<open>
  \<open>re.findall\<close>: scan from the left; a match is reported and the scan goes on after
  it, otherwise it moves on by one character. The first argument counts the
  characters of the last match still to be passed over.
\<close>

fun findall :: "nat \<Rightarrow> string \<Rightarrow> string list" where
  "findall k [] = []"
| "findall k (c # cs) =
     (if 0 < k then findall (k - 1) cs
      else
        (case match_url (c # cs) of
           Some n \<Rightarrow> take n (c # cs) # findall (n - 1) cs
         | None \<Rightarrow> findall 0 cs))"

definition extract_urls :: "string \<Rightarrow> string list" where
  "extract_urls text = (if text = [] then [] else findall 0 text)"

subsection \<open>The domain of a link\<close>

definition scheme_char :: "char \<Rightarrow> bool" where
  "scheme_char c =
     (let n = (of_char c :: nat)
      in (97 \<le> n \<and> n \<le> 122) \<or> (65 \<le> n \<and> n \<le> 90) \<or> (48 \<le> n \<and> n \<le> 57)
         \<or> c = CHR ''+'' \<or> c = CHR ''-'' \<or> c = CHR ''.'')"

definition ascii_alpha :: "char \<Rightarrow> bool" where
  "ascii_alpha c =
     (let n = (of_char c :: nat) in (97 \<le> n \<and> n \<le> 122) \<or> (65 \<le> n \<and> n \<le> 90))"

text \<open>
  \<open>urlparse(url).netloc\<close>, after the standard library's \<open>urlsplit\<close>: leading control
  characters and spaces are dropped and tab, CR and LF removed; a scheme is split off
  at the first colon when the text before it starts with a letter and is made of
  scheme characters; after \<open>//\<close> the network location runs up to the first of
  \<open>/\<close>, \<open>?\<close> and \<open>#\<close>; a network location with one square bracket and not the other
  raises ValueError.
\<close>

definition netloc :: "string \<Rightarrow> error + string" where
  "netloc url0 =
     (let url1 = dropWhile (\<lambda>c. (of_char c :: nat) \<le> 32) url0;
          url2 = filter (\<lambda>c. c \<noteq> CHR 0x09 \<and> c \<noteq> CHR 0x0D \<and> c \<noteq> CHR 0x0A) url1;
          sch = takeWhile (\<lambda>c. c \<noteq> CHR '':'') url2;
          url3 = (if length sch < length url2 \<and> sch \<noteq> [] \<and> ascii_alpha (hd url2)
                     \<and> list_all scheme_char sch
                  then drop (length sch + 1) url2
                  else url2)
      in if take 2 url3 = ''//'' then
           (let loc = takeWhile (\<lambda>c. c \<noteq> CHR ''/'' \<and> c \<noteq> CHR ''?'' \<and> c \<noteq> CHR ''#'') (drop 2 url3)
            in if (CHR ''['' \<in> set loc) \<noteq> (CHR '']'' \<in> set loc) then Inl ValueError
               else Inr loc)
         else Inr [])"

text \<open>\<open>urlparse(url).netloc or url\<close>\<close>

definition url_domain :: "string \<Rightarrow> error + string" where
  "url_domain url =
     (case netloc url of
        Inl e \<Rightarrow> Inl e
      | Inr loc \<Rightarrow> Inr (if loc = [] then url else loc))"

subsection \<open>Running the extraction\<close>

text \<open>
  The running totals of the handler, the \<open>report_links\<close> table as the inserts so far
  have left it, and the number of readings taken from the clock
  (\<open>datetime.utcnow()\<close>, twice for each inserted row); \<open>clock n\<close> is reading number
  \<open>n\<close>.
\<close>

record extraction =
  ex_links :: "report_link list"
  ex_inserted :: nat
  ex_skipped :: nat
  ex_ticks :: nat

text \<open>
  The inner loop over the tokens of one report. \<open>existing_urls\<close> is loaded once
  before the loop and not changed in it. An exception of \<open>urlparse\<close> ends the
  handler; the rows inserted before it stay.
\<close>

fun insert_urls ::
  "(nat \<Rightarrow> timestamp) \<Rightarrow> int \<Rightarrow> string list \<Rightarrow> string list \<Rightarrow> extraction
     \<Rightarrow> extraction \<times> error option"
where
  "insert_urls clock rid existing_urls [] ex = (ex, None)"
| "insert_urls clock rid existing_urls (url # urls) ex =
     (if url \<in> set existing_urls then
        insert_urls clock rid existing_urls urls (ex\<lparr>ex_skipped := ex_skipped ex + 1\<rparr>)
      else
        (case url_domain url of
           Inl e \<Rightarrow> (ex, Some e)
         | Inr domain \<Rightarrow>
             insert_urls clock rid existing_urls urls
               (ex\<lparr>ex_links :=
                     insert_simple (ex_links ex)
                       \<lparr>rl_report_id = rid,
                        rl_url = url,
                        rl_domain = domain,
                        rl_safety = None,
                        rl_created_on = clock (ex_ticks ex),
                        rl_updated_on = clock (ex_ticks ex + 1),
                        rl_deleted = False\<rparr>,
                   ex_inserted := ex_inserted ex + 1,
                   ex_ticks := ex_ticks ex + 2\<rparr>)))"

text \<open>\<open>(r[1] or "") + "\n" + (r[2] or "")\<close>\<close>

definition scanned_text :: "legacy_report \<Rightarrow> string" where
  "scanned_text r =
     (case lr_message_content r of None \<Rightarrow> [] | Some m \<Rightarrow> m) @ [CHR 0x0A]
       @ (case lr_ocr_preview r of None \<Rightarrow> [] | Some t \<Rightarrow> t)"

text \<open>
  \<open>select(report_links.c.url).where(report_links.c.report_id == rid)\<close>: the URLs
  already recorded for a report. The query selects on \<open>report_id\<close> alone, so the
  URLs of soft-deleted links are among them.
\<close>

definition recorded_urls :: "int \<Rightarrow> report_link list \<Rightarrow> string list" where
  "recorded_urls rid links = map rl_url (filter (\<lambda>l. rl_report_id l = rid) links)"

text \<open>The outer loop over the selected reports.\<close>

fun extract_rows ::
  "(nat \<Rightarrow> timestamp) \<Rightarrow> legacy_report list \<Rightarrow> extraction \<Rightarrow> extraction \<times> error option"
where
  "extract_rows clock [] ex = (ex, None)"
| "extract_rows clock (r # rows) ex =
     (let urls = extract_urls (scanned_text r)
      in if urls = [] then extract_rows clock rows ex
         else
           (let existing_urls = recorded_urls (lr_id r) (ex_links ex)
            in case insert_urls clock (lr_id r) existing_urls urls ex of
                 (ex', Some e) \<Rightarrow> (ex', Some e)
               | (ex', None) \<Rightarrow> extract_rows clock rows ex'))"

text \<open>
  What the handler shows at its end: the two counts of the success message, or the
  exception that ended it.
\<close>

datatype outcome = Complete nat nat | Raised error

definition selected_reports :: "legacy_store \<Rightarrow> legacy_report list" where
  "selected_reports st =
     take 200 (sort_key (\<lambda>r. - lr_created_on r)
                 (filter (\<lambda>r. lr_contain_link r \<and> \<not> lr_deleted r) (l_reports st)))"

definition run_extraction :: "(nat \<Rightarrow> timestamp) \<Rightarrow> legacy_store \<Rightarrow> legacy_store \<times> outcome" where
  "run_extraction clock st =
     (case extract_rows clock (selected_reports st)
             \<lparr>ex_links = l_report_links st, ex_inserted = 0, ex_skipped = 0, ex_ticks = 0\<rparr> of
        (ex, err) \<Rightarrow>
          (st\<lparr>l_report_links := ex_links ex\<rparr>,
           case err of
             None \<Rightarrow> Complete (ex_inserted ex) (ex_skipped ex)
           | Some e \<Rightarrow> Raised e))"

text \<open>The number of URL tokens that a run finds in the reports it scans.\<close>

definition tokens_found :: "legacy_report list \<Rightarrow> nat" where
  "tokens_found rows = sum_list (map (\<lambda>r. length (extract_urls (scanned_text r))) rows)"

section \<open>Sample data\<close>

text \<open>Concrete rows and stores at which the results below are instantiated.\<close>

definition sample_report :: report where
  "sample_report =
     \<lparr>r_id = 1,
      r_report_type = ''sms'',
      r_source_from = Some ''+15551234567'',
      r_subject = None,
      r_message_content = ''Win now http://bit.ly/x and www.scam.test/y'',
      r_received_at = None,
      r_reporter_name = None,
      r_reporter_contact = None,
      r_suggested_classification = ''unclassified'',
      r_classification = ''unclassified'',
      r_classified_by = None,
      r_classified_on = None,
      r_is_verified = False,
      r_verified_by = None,
      r_verified_on = None,
      r_is_flagged = False,
      r_flag_reason = None,
      r_flagged_on = None,
      r_flagged_by = None,
      r_created_on = 100,
      r_updated_on = 100,
      r_deleted = False\<rparr>"

definition sample_attachment :: attachment where
  "sample_attachment =
     \<lparr>a_id = 7,
      a_report_id = 1,
      a_original_name = ''shot.png'',
      a_storage_path = ''uploads/0f.png'',
      a_mime_type = Some ''image/png'',
      a_size_bytes = Some 2048,
      a_created_on = 101,
      a_deleted = False\<rparr>"

definition sample_store :: store where
  "sample_store = \<lparr>reports = [sample_report], attachments = [sample_attachment]\<rparr>"

definition flagged_store :: store where
  "flagged_store =
     \<lparr>reports = [sample_report\<lparr>r_is_flagged := True, r_flag_reason := Some ''phishing''\<rparr>],
      attachments = [sample_attachment]\<rparr>"

definition deleted_store :: store where
  "deleted_store =
     \<lparr>reports = [sample_report\<lparr>r_deleted := True\<rparr>], attachments = [sample_attachment]\<rparr>"

text \<open>
  Four reports: two public ones, a flagged one and a deleted one, the newest last in
  the table.
\<close>

definition prize_report :: report where
  "prize_report =
     sample_report\<lparr>r_id := 4, r_message_content := ''You WIN a prize'', r_source_from := None,
                   r_created_on := 400, r_updated_on := 400\<rparr>"

definition mixed_store :: store where
  "mixed_store =
     \<lparr>reports =
        [sample_report,
         sample_report\<lparr>r_id := 2, r_report_type := ''email'', r_subject := Some ''Winner'',
                       r_is_flagged := True, r_flag_reason := Some ''phishing'',
                       r_created_on := 200, r_updated_on := 250\<rparr>,
         sample_report\<lparr>r_id := 3, r_deleted := True, r_created_on := 300, r_updated_on := 350\<rparr>,
         prize_report],
      attachments = [sample_attachment]\<rparr>"

definition sample_fromisoformat :: "string \<Rightarrow> timestamp option" where
  "sample_fromisoformat s = (if s = ''2024-01-01T00:00:00'' then Some 1704067200 else None)"

definition sample_legacy_report :: legacy_report where
  "sample_legacy_report =
     \<lparr>lr_id = 1,
      lr_message_content = Some ''Win now http://bit.ly/x and www.scam.test/y'',
      lr_ocr_preview = None,
      lr_contain_link = True,
      lr_created_on = 100,
      lr_updated_on = 100,
      lr_deleted = False,
      lr_deleted_on = None\<rparr>"

definition sample_legacy_store :: legacy_store where
  "sample_legacy_store =
     \<lparr>l_reports = [sample_legacy_report], l_report_links = [], l_report_audit = []\<rparr>"

definition repeated_url_store :: legacy_store where
  "repeated_url_store =
     \<lparr>l_reports = [sample_legacy_report\<lparr>lr_message_content := Some ''http://a.co http://a.co''\<rparr>],
      l_report_links = [],
      l_report_audit = []\<rparr>"

definition sample_clock :: "nat \<Rightarrow> timestamp" where
  "sample_clock n = 1000 + int n"

section \<open>Moderation on a missing or deleted report\<close>

lemma find_map_replace:
  assumes "find (\<lambda>x. r_id x = i) xs = Some r" and "r_id y = i"
  shows "find (\<lambda>x. r_id x = i) (map (\<lambda>x. if r_id x = i then y else x) xs) = Some y"
  using assms by (induction xs) (auto split: if_splits)

lemma get_report_id: "get_report st i = Some r \<Longrightarrow> r_id r = i"
  by (auto simp: get_report_def find_Some_iff)

lemma admin_action_guard:
  assumes "get_report st i = None \<or> (\<exists>r. get_report st i = Some r \<and> r_deleted r)"
  shows "admin_action st i action reason admin_user now db_now
           = (st, RedirectResponse ''/admin'' 303)"
  using assms by (auto simp: admin_action_def)

lemma deleted_after_delete:
  "get_report (fst (admin_action st i ''delete'' reason admin_user now db_now)) i = None
   \<or> (\<exists>r. get_report (fst (admin_action st i ''delete'' reason admin_user now db_now)) i = Some r
          \<and> r_deleted r)"
proof (cases "get_report st i")
  case None
  then show ?thesis by (simp add: admin_action_def)
next
  case (Some r)
  show ?thesis
  proof (cases "r_deleted r")
    case True
    with Some show ?thesis by (simp add: admin_action_def)
  next
    case False
    from Some have rid: "r_id r = i" by (rule get_report_id)
    have ne: "r\<lparr>r_deleted := True\<rparr> \<noteq> r"
    proof
      assume "r\<lparr>r_deleted := True\<rparr> = r"
      then have "r_deleted (r\<lparr>r_deleted := True\<rparr>) = r_deleted r" by simp
      with False show False by simp
    qed
    from Some have f: "find (\<lambda>x. r_id x = i) (reports st) = Some r"
      by (simp add: get_report_def)
    have "get_report (fst (admin_action st i ''delete'' reason admin_user now db_now)) i
            = Some (r\<lparr>r_deleted := True, r_updated_on := db_now\<rparr>)"
      using Some False ne rid
        find_map_replace[OF f, of "r\<lparr>r_deleted := True, r_updated_on := db_now\<rparr>"]
      by (simp add: admin_action_def commit_report_def get_report_def)
    then show ?thesis by simp
  qed
qed

text \<open>
  C6 as amended. \<open>admin_action\<close> on a report id that is not in the store, or whose
  report is already deleted, returns the store as it was, whatever the action, and
  answers with the same redirect to \<open>/admin\<close> as a completed action. In particular,
  once a delete has been applied through \<open>admin_action\<close>, any further action on that
  report, a second delete among them, leaves every stored row as the first delete
  left it. The handler of the legacy form makes no such check: whatever report id it
  is given, an audit action other than \<open>none\<close> appends its audit entry, and a delete
  writes \<open>deleted\<close>, \<open>deleted_on\<close> and \<open>updated_on\<close> of the rows with that id
  anew.
\<close>

theorem noop_on_missing_or_deleted:
  "(get_report st i = None \<or> (\<exists>r. get_report st i = Some r \<and> r_deleted r)
      \<longrightarrow> admin_action st i action reason admin_user now db_now
            = (st, RedirectResponse ''/admin'' 303))
   \<and> admin_action (fst (admin_action st i ''delete'' reason admin_user now db_now))
        i later_action later_reason later_user later_now later_db_now
       = (fst (admin_action st i ''delete'' reason admin_user now db_now),
          RedirectResponse ''/admin'' 303)
   \<and> (laction \<noteq> ''none''
        \<longrightarrow> l_report_audit (audit_submit lst lid performed_by laction comment now_utc)
              = l_report_audit lst @
                  [\<lparr>au_report_id = lid, au_performed_by = performed_by, au_action = laction,
                    au_comment = comment, au_created_on = now_utc, au_updated_on = now_utc,
                    au_deleted = False\<rparr>])
   \<and> l_reports (audit_submit lst lid performed_by ''delete'' comment now_utc)
       = map (\<lambda>x. if lr_id x = lid
                   then x\<lparr>lr_deleted := True, lr_deleted_on := Some now_utc,
                          lr_updated_on := now_utc\<rparr>
                   else x)
           (l_reports lst)"
proof (intro conjI impI)
  assume "get_report st i = None \<or> (\<exists>r. get_report st i = Some r \<and> r_deleted r)"
  then show "admin_action st i action reason admin_user now db_now
               = (st, RedirectResponse ''/admin'' 303)"
    by (rule admin_action_guard)
next
  show "admin_action (fst (admin_action st i ''delete'' reason admin_user now db_now))
          i later_action later_reason later_user later_now later_db_now
        = (fst (admin_action st i ''delete'' reason admin_user now db_now),
           RedirectResponse ''/admin'' 303)"
    using deleted_after_delete by (rule admin_action_guard)
next
  assume "laction \<noteq> ''none''"
  then show "l_report_audit (audit_submit lst lid performed_by laction comment now_utc)
              = l_report_audit lst @
                  [\<lparr>au_report_id = lid, au_performed_by = performed_by, au_action = laction,
                    au_comment = comment, au_created_on = now_utc, au_updated_on = now_utc,
                    au_deleted = False\<rparr>]"
    by (simp add: audit_submit_def audit_submit_commits_def insert_simple_def Let_def)
next
  show "l_reports (audit_submit lst lid performed_by ''delete'' comment now_utc)
       = map (\<lambda>x. if lr_id x = lid
                   then x\<lparr>lr_deleted := True, lr_deleted_on := Some now_utc,
                          lr_updated_on := now_utc\<rparr>
                   else x)
           (l_reports lst)"
    by (simp add: audit_submit_def audit_submit_commits_def insert_simple_def Let_def)
qed

text \<open>
  A flag on a deleted report, a delete of a report that does not exist, and a second
  delete 200 seconds after the first: the row still carries the \<open>updated_on\<close> of
  the first delete. In the legacy store, a delete of report 1 at 600.
\<close>

theorem noop_on_missing_or_deleted_witness:
  "(\<exists>r. get_report deleted_store 1 = Some r \<and> r_deleted r)
   \<and> admin_action deleted_store 1 ''flag'' ''phishing'' ''admin'' 500 501
       = (deleted_store, RedirectResponse ''/admin'' 303)
   \<and> get_report sample_store 2 = None
   \<and> admin_action sample_store 2 ''delete'' [] ''admin'' 500 501
       = (sample_store, RedirectResponse ''/admin'' 303)
   \<and> fst (admin_action sample_store 1 ''delete'' [] ''admin'' 500 501)
       = \<lparr>reports = [sample_report\<lparr>r_deleted := True, r_updated_on := 501\<rparr>],
          attachments = [sample_attachment]\<rparr>
   \<and> admin_action (fst (admin_action sample_store 1 ''delete'' [] ''admin'' 500 501))
         1 ''delete'' [] ''admin'' 700 701
       = (\<lparr>reports = [sample_report\<lparr>r_deleted := True, r_updated_on := 501\<rparr>],
           attachments = [sample_attachment]\<rparr>,
          RedirectResponse ''/admin'' 303)
   \<and> ''delete'' \<noteq> ''none''
   \<and> map au_action (l_report_audit (audit_submit sample_legacy_store 1 None ''delete'' ''spam'' 600))
       = [''delete'']
   \<and> map lr_deleted_on (l_reports (audit_submit sample_legacy_store 1 None ''delete'' ''spam'' 600))
       = [Some 600]"
proof -
  have first: "fst (admin_action sample_store 1 ''delete'' [] ''admin'' 500 501)
       = \<lparr>reports = [sample_report\<lparr>r_deleted := True, r_updated_on := 501\<rparr>],
          attachments = [sample_attachment]\<rparr>"
    by code_simp
  have gone: "get_report deleted_store 1 = Some (sample_report\<lparr>r_deleted := True\<rparr>)"
    "get_report sample_store 2 = None"
    by (simp_all add: get_report_def deleted_store_def sample_store_def sample_report_def)
  note T1 = noop_on_missing_or_deleted[where st = deleted_store and i = 1 and action = "''flag''"
      and reason = "''phishing''" and admin_user = "''admin''" and now = 500 and db_now = 501]
  from T1[THEN conjunct1] gone(1)
  have a: "admin_action deleted_store 1 ''flag'' ''phishing'' ''admin'' 500 501
       = (deleted_store, RedirectResponse ''/admin'' 303)"
    by simp
  note T2 = noop_on_missing_or_deleted[where st = sample_store and i = 2 and action = "''delete''"
      and reason = "[]" and admin_user = "''admin''" and now = 500 and db_now = 501]
  from T2[THEN conjunct1] gone(2)
  have b: "admin_action sample_store 2 ''delete'' [] ''admin'' 500 501
       = (sample_store, RedirectResponse ''/admin'' 303)"
    by simp
  note T3 = noop_on_missing_or_deleted[where st = sample_store and i = 1 and reason = "[]"
      and admin_user = "''admin''" and now = 500 and db_now = 501 and later_action = "''delete''"
      and later_reason = "[]" and later_user = "''admin''" and later_now = 700 and later_db_now = 701
      and laction = "''delete''" and lst = sample_legacy_store and lid = 1
      and performed_by = None and comment = "''spam''" and now_utc = 600]
  from T3[THEN conjunct2, THEN conjunct1]
  have c: "admin_action (fst (admin_action sample_store 1 ''delete'' [] ''admin'' 500 501))
         1 ''delete'' [] ''admin'' 700 701
       = (fst (admin_action sample_store 1 ''delete'' [] ''admin'' 500 501),
          RedirectResponse ''/admin'' 303)" .
  have ne: "''delete'' \<noteq> ''none''" by simp
  from T3[THEN conjunct2, THEN conjunct2, THEN conjunct1] ne
  have d: "map au_action
             (l_report_audit (audit_submit sample_legacy_store 1 None ''delete'' ''spam'' 600))
           = [''delete'']"
    by (simp add: sample_legacy_store_def)
  from T3[THEN conjunct2, THEN conjunct2, THEN conjunct2]
  have e: "map lr_deleted_on
             (l_reports (audit_submit sample_legacy_store 1 None ''delete'' ''spam'' 600))
           = [Some 600]"
    by (simp add: sample_legacy_store_def sample_legacy_report_def)
  from gone a b first c ne d e show ?thesis by simp
qed

text \<open>
  C6 as stated fails in the legacy handler. Report 1 is deleted at 600; a second
  delete of the same report at 900 is not a no-op: it overwrites \<open>deleted_on\<close> and
  \<open>updated_on\<close> with 900 and appends a second audit entry. A delete of report 99,
  which does not exist, appends an audit entry for it.
\<close>

theorem legacy_delete_unguarded_counterexample:
  "map lr_deleted_on (l_reports (audit_submit sample_legacy_store 1 None ''delete'' ''spam'' 600))
     = [Some 600]
   \<and> l_reports
        (audit_submit (audit_submit sample_legacy_store 1 None ''delete'' ''spam'' 600)
           1 None ''delete'' ''again'' 900)
     = [sample_legacy_report\<lparr>lr_deleted := True, lr_deleted_on := Some 900, lr_updated_on := 900\<rparr>]
   \<and> map au_created_on
        (l_report_audit
           (audit_submit (audit_submit sample_legacy_store 1 None ''delete'' ''spam'' 600)
              1 None ''delete'' ''again'' 900))
     = [600, 900]
   \<and> map au_report_id
        (l_report_audit (audit_submit sample_legacy_store 99 None ''delete'' ''spam'' 600))
     = [99]
   \<and> l_reports (audit_submit sample_legacy_store 99 None ''delete'' ''spam'' 600)
     = [sample_legacy_report]"
  by code_simp

section \<open>Submitting a report\<close>

text \<open>
  C10. When the received-at string of a submission is not empty and
  \<open>datetime.fromisoformat\<close> rejects it, \<open>submit_report\<close> still inserts the report
  and answers with its usual redirect; the stored row has no \<open>received_at\<close>, and
  carries the submitted type and message.
\<close>

theorem unparseable_received_at_stored_absent:
  assumes "received_at \<noteq> []" and "fromisoformat received_at = None"
  shows "\<exists>st' r.
           submit_report fromisoformat st report_type source_from subject message_content
             received_at reporter_name reporter_contact attachment db_now db_now2
             = (st', RedirectResponse ''/'' 303)
           \<and> reports st' = reports st @ [r]
           \<and> r_received_at r = None
           \<and> r_report_type r = report_type
           \<and> r_message_content r = message_content
           \<and> \<not> r_deleted r \<and> \<not> r_is_flagged r"
  using assms by (simp add: submit_report_def Let_def split: option.splits)

theorem unparseable_received_at_stored_absent_witness:
  "''yesterday at noon'' \<noteq> [] \<and> sample_fromisoformat ''yesterday at noon'' = None
   \<and> (\<exists>st' r.
           submit_report sample_fromisoformat sample_store ''sms'' [] [] ''You won'' ''yesterday at noon''
             [] [] None 600 601
             = (st', RedirectResponse ''/'' 303)
           \<and> reports st' = reports sample_store @ [r]
           \<and> r_received_at r = None
           \<and> r_report_type r = ''sms''
           \<and> r_message_content r = ''You won''
           \<and> \<not> r_deleted r \<and> \<not> r_is_flagged r)"
  using unparseable_received_at_stored_absent[of "''yesterday at noon''" sample_fromisoformat
      sample_store "''sms''" "[]" "[]" "''You won''" "[]" "[]" None 600 601]
  by (simp add: sample_fromisoformat_def)

section \<open>Displaying a stored instant\<close>

text \<open>
  C8. For a set instant and a timezone name that is absent (None) or empty,
  \<open>convert_utc_to_local\<close> returns None, not the instant.
\<close>

theorem convert_utc_to_local_without_tz_name:
  "convert_utc_to_local tzdb (Some dt) None = None
   \<and> convert_utc_to_local tzdb (Some dt) (Some []) = None"
  by (simp add: convert_utc_to_local_def)

section \<open>Public visibility\<close>

lemma sc_reports_search_page:
  "sc_reports (search_page st tolower q report_type)
     = take 200 (order_by_created_desc (filter (search_where tolower q report_type) (reports st)))"
  by (simp add: search_page_def Let_def)

lemma set_search_rows:
  "set (sc_reports (search_page st tolower q report_type))
     \<subseteq> {r \<in> set (reports st). search_where tolower q report_type r}"
proof -
  have "set (take 200 (order_by_created_desc (filter (search_where tolower q report_type) (reports st))))
          \<subseteq> set (order_by_created_desc (filter (search_where tolower q report_type) (reports st)))"
    by (rule set_take_subset)
  then show ?thesis
    by (auto simp: sc_reports_search_page order_by_created_desc_def)
qed

text \<open>
  C2. Whatever the text and type filters, no report listed by \<open>search_page\<close> is
  flagged (or deleted); and \<open>download_attachment\<close> answers with the redirect to
  \<open>/\<close>, not with the file, when the attachment's report is flagged or deleted.
\<close>

theorem flagged_hidden_from_public:
  "(\<forall>r \<in> set (sc_reports (search_page st tolower q report_type)). \<not> r_is_flagged r \<and> \<not> r_deleted r)
   \<and> (\<forall>att report.
         get_attachment st attachment_id = Some att
         \<and> get_report st (a_report_id att) = Some report
         \<and> (r_is_flagged report \<or> r_deleted report)
         \<longrightarrow> download_attachment st attachment_id = RedirectResponse ''/'' 303)"
proof (intro conjI ballI allI impI)
  fix r assume "r \<in> set (sc_reports (search_page st tolower q report_type))"
  with set_search_rows[of st tolower q report_type] have "search_where tolower q report_type r" by blast
  then show "\<not> r_is_flagged r" "\<not> r_deleted r" by (simp_all add: search_where_def)
next
  fix att report
  assume "get_attachment st attachment_id = Some att
         \<and> get_report st (a_report_id att) = Some report
         \<and> (r_is_flagged report \<or> r_deleted report)"
  then show "download_attachment st attachment_id = RedirectResponse ''/'' 303"
    by (auto simp: download_attachment_def)
qed

theorem flagged_hidden_from_public_witness:
  "sc_reports (search_page flagged_store lower_char (Some ''win'') (Some ''sms'')) = []
   \<and> sc_reports (search_page sample_store lower_char (Some ''win'') (Some ''sms'')) = [sample_report]
   \<and> get_attachment flagged_store 7 = Some sample_attachment
   \<and> map_option r_is_flagged (get_report flagged_store (a_report_id sample_attachment)) = Some True
   \<and> download_attachment flagged_store 7 = RedirectResponse ''/'' 303"
proof -
  have hidden: "sc_reports (search_page flagged_store lower_char (Some ''win'') (Some ''sms'')) = []"
    by code_simp
  have shown: "sc_reports (search_page sample_store lower_char (Some ''win'') (Some ''sms'')) = [sample_report]"
    by code_simp
  have att: "get_attachment flagged_store 7 = Some sample_attachment"
    by code_simp
  have rep: "map_option r_is_flagged (get_report flagged_store (a_report_id sample_attachment))
               = Some True"
    by code_simp
  then obtain report where r: "get_report flagged_store (a_report_id sample_attachment) = Some report"
      and f: "r_is_flagged report"
    by auto
  from flagged_hidden_from_public[of flagged_store lower_char "Some ''win''" "Some ''sms''" 7] att r f
  have "download_attachment flagged_store 7 = RedirectResponse ''/'' 303"
    by blast
  with hidden shown att rep show ?thesis by simp
qed

section \<open>Round trip of a local time\<close>

lemma offset_at_wall_lower:
  assumes "sorted (map fst ts)" and "\<forall>t' \<in> set (map fst ts). t \<le> t'" and "t + off \<le> w"
  shows "t + offset_at_wall off ts w \<le> w"
  using assms
proof (induction ts arbitrary: off)
  case Nil
  then show ?case by simp
next
  case (Cons a ts)
  obtain t1 off1 where a: "a = (t1, off1)" by (cases a)
  show ?case
  proof (cases "w < t1 + max off off1")
    case True
    with a Cons.prems show ?thesis by simp
  next
    case False
    from Cons.prems a have le: "t \<le> t1" by simp
    from False le have "t + off1 \<le> w" by simp
    moreover from Cons.prems a have "sorted (map fst ts)" "\<forall>t' \<in> set (map fst ts). t \<le> t'"
      by auto
    ultimately have "t + offset_at_wall off1 ts w \<le> w" by (rule Cons.IH[rotated 2])
    with a False show ?thesis by simp
  qed
qed

lemma offset_roundtrip:
  assumes "sorted (map fst ts)" and "\<not> skipped_reading off ts w"
  shows "offset_at_utc off ts (w - offset_at_wall off ts w) = offset_at_wall off ts w"
  using assms
proof (induction ts arbitrary: off)
  case Nil
  then show ?case by simp
next
  case (Cons a ts)
  obtain t off' where a: "a = (t, off')" by (cases a)
  from Cons.prems a have sorted_ts: "sorted (map fst ts)"
    and later: "\<forall>t' \<in> set (map fst ts). t \<le> t'"
    and nogap: "\<not> (t + off \<le> w \<and> w < t + off')"
    and rest: "\<not> skipped_reading off' ts w"
    by auto
  show ?case
  proof (cases "w < t + max off off'")
    case True
    with nogap have "w < t + off" by (auto simp: max_def split: if_splits)
    with True a show ?thesis by simp
  next
    case False
    then have "t + off' \<le> w" by simp
    with sorted_ts later have "t + offset_at_wall off' ts w \<le> w"
      by (rule offset_at_wall_lower)
    then have "\<not> w - offset_at_wall off' ts w < t" by simp
    with False a Cons.IH[OF sorted_ts rest] show ?thesis by simp
  qed
qed

text \<open>
  C9 as amended. Take a zone that the database knows under a non-empty name, with its
  transitions in ascending order, a database that also knows UTC, and a local date and
  time that exists in the zone, that is, one that no forward jump of the zone skips.
  Then displaying in the zone what \<open>convert_local_to_utc\<close> made of that date and
  time gives back the same wall-clock reading, to the second.
\<close>

theorem local_time_roundtrip:
  assumes "tzdb name = Some z" and "tzdb ''UTC'' = Some zu" and "name \<noteq> []"
    and "sorted (map fst (z_trans z))"
    and "\<not> skipped_reading (z_initial z) (z_trans z) w"
  shows "map_option dt_wall
           (convert_utc_to_local tzdb (Some (convert_local_to_utc tzdb w (Some name))) (Some name))
         = Some w"
proof (cases "name = ''UTC''")
  case True
  with assms show ?thesis
    by (simp add: convert_utc_to_local_def convert_local_to_utc_def astimezone_def
          replace_tzinfo_def)
next
  case False
  with assms(1-3) offset_roundtrip[OF assms(4,5)] show ?thesis
    by (simp add: convert_utc_to_local_def convert_local_to_utc_def astimezone_def
          replace_tzinfo_def Let_def)
qed

text \<open>
  In America/New\_York: 2024-03-10 01:30:00, on the day of the forward jump and before
  it; 2024-07-04 12:00:00, on a day without transition; and 2024-11-03 01:30:00, a
  reading that occurs twice on the day of the backward jump.
\<close>

theorem local_time_roundtrip_witness:
  "tzdb_2024 ''America/New_York'' = Some new_york_2024
   \<and> tzdb_2024 ''UTC'' = Some utc_zone
   \<and> sorted (map fst (z_trans new_york_2024))
   \<and> \<not> skipped_reading (z_initial new_york_2024) (z_trans new_york_2024) 1710034200
   \<and> \<not> skipped_reading (z_initial new_york_2024) (z_trans new_york_2024) 1720094400
   \<and> \<not> skipped_reading (z_initial new_york_2024) (z_trans new_york_2024) 1730597400
   \<and> map_option dt_wall
        (convert_utc_to_local tzdb_2024
           (Some (convert_local_to_utc tzdb_2024 1710034200 (Some ''America/New_York'')))
           (Some ''America/New_York''))
      = Some 1710034200
   \<and> map_option dt_wall
        (convert_utc_to_local tzdb_2024
           (Some (convert_local_to_utc tzdb_2024 1720094400 (Some ''America/New_York'')))
           (Some ''America/New_York''))
      = Some 1720094400
   \<and> map_option dt_wall
        (convert_utc_to_local tzdb_2024
           (Some (convert_local_to_utc tzdb_2024 1730597400 (Some ''America/New_York'')))
           (Some ''America/New_York''))
      = Some 1730597400"
  using local_time_roundtrip[of tzdb_2024 "''America/New_York''" new_york_2024 utc_zone 1710034200]
    local_time_roundtrip[of tzdb_2024 "''America/New_York''" new_york_2024 utc_zone 1720094400]
    local_time_roundtrip[of tzdb_2024 "''America/New_York''" new_york_2024 utc_zone 1730597400]
  by (simp add: tzdb_2024_def new_york_2024_def)

text \<open>
  C9 as stated fails on the day of the forward jump: 2024-03-10 02:30:00
  (1710037800 as a wall-clock reading) does not exist in America/New\_York; it is
  stored as 07:30:00 UTC and displayed as 03:30:00 (1710041400).
\<close>

theorem skipped_local_time_counterexample:
  "map_option dt_wall
     (convert_utc_to_local tzdb_2024
        (Some (convert_local_to_utc tzdb_2024 1710037800 (Some ''America/New_York'')))
        (Some ''America/New_York''))
   = Some 1710041400
   \<and> map_option dt_wall
     (convert_utc_to_local tzdb_2024
        (Some (convert_local_to_utc tzdb_2024 1710037800 (Some ''America/New_York'')))
        (Some ''America/New_York''))
   \<noteq> Some 1710037800"
  by (simp add: convert_utc_to_local_def convert_local_to_utc_def astimezone_def
        replace_tzinfo_def tzdb_2024_def new_york_2024_def utc_zone_def Let_def)

section \<open>Link extraction\<close>

subsection \<open>Running the extraction twice\<close>

lemma insert_urls_links:
  assumes "insert_urls clock rid E urls ex = (ex', err)"
  shows "\<exists>new. ex_links ex' = ex_links ex @ new
           \<and> (\<forall>l \<in> set new. rl_report_id l = rid \<and> (\<exists>d. url_domain (rl_url l) = Inr d))"
  using assms
proof (induction urls arbitrary: ex)
  case Nil
  then show ?case by simp
next
  case (Cons u urls)
  show ?case
  proof (cases "u \<in> set E")
    case True
    with Cons.prems have "insert_urls clock rid E urls (ex\<lparr>ex_skipped := ex_skipped ex + 1\<rparr>) = (ex', err)"
      by simp
    from Cons.IH[OF this] show ?thesis by simp
  next
    case False
    show ?thesis
    proof (cases "url_domain u")
      case (Inl e)
      with False Cons.prems show ?thesis by simp
    next
      case (Inr d)
      let ?l = "\<lparr>rl_report_id = rid, rl_url = u, rl_domain = d, rl_safety = None,
                 rl_created_on = clock (ex_ticks ex), rl_updated_on = clock (ex_ticks ex + 1),
                 rl_deleted = False\<rparr>"
      let ?ex = "ex\<lparr>ex_links := insert_simple (ex_links ex) ?l,
                    ex_inserted := ex_inserted ex + 1, ex_ticks := ex_ticks ex + 2\<rparr>"
      from False Inr Cons.prems have "insert_urls clock rid E urls ?ex = (ex', err)"
        by simp
      from Cons.IH[OF this] obtain new where
        new: "ex_links ex' = ex_links ?ex @ new"
          "\<forall>l \<in> set new. rl_report_id l = rid \<and> (\<exists>d. url_domain (rl_url l) = Inr d)"
        by blast
      from new(1) have "ex_links ex' = ex_links ex @ (?l # new)"
        by (simp add: insert_simple_def)
      moreover from new(2) Inr
      have "\<forall>l \<in> set (?l # new). rl_report_id l = rid \<and> (\<exists>d. url_domain (rl_url l) = Inr d)"
        by simp
      ultimately show ?thesis by blast
    qed
  qed
qed

lemma insert_urls_rerun:
  assumes "insert_urls clock rid E urls ex = (ex', err)"
    and "set E \<subseteq> set E2"
    and "\<forall>l \<in> set (ex_links ex'). rl_report_id l = rid \<longrightarrow> rl_url l \<in> set E2"
    and "\<forall>u \<in> set E2. u \<in> set E \<or> (\<exists>d. url_domain u = Inr d)"
  shows "\<exists>n. insert_urls clock2 rid E2 urls ex2 = (ex2\<lparr>ex_skipped := ex_skipped ex2 + n\<rparr>, err)
           \<and> (err = None \<longrightarrow> n = length urls
                 \<and> ex_inserted ex' + ex_skipped ex' = ex_inserted ex + ex_skipped ex + length urls)"
  using assms(1,3)
proof (induction urls arbitrary: ex ex2)
  case Nil
  then have "insert_urls clock2 rid E2 [] ex2 = (ex2\<lparr>ex_skipped := ex_skipped ex2 + 0\<rparr>, err)
               \<and> (err = None \<longrightarrow> 0 = length ([]::string list)
                 \<and> ex_inserted ex' + ex_skipped ex' = ex_inserted ex + ex_skipped ex + length ([]::string list))"
    by auto
  then show ?case by blast
next
  case (Cons u urls)
  show ?case
  proof (cases "u \<in> set E")
    case True
    with assms(2) have in2: "u \<in> set E2" by blast
    from True Cons.prems(1)
    have run: "insert_urls clock rid E urls (ex\<lparr>ex_skipped := ex_skipped ex + 1\<rparr>) = (ex', err)"
      by simp
    from Cons.IH[OF run Cons.prems(2), of "ex2\<lparr>ex_skipped := ex_skipped ex2 + 1\<rparr>"]
    obtain n where n:
      "insert_urls clock2 rid E2 urls (ex2\<lparr>ex_skipped := ex_skipped ex2 + 1\<rparr>)
         = (ex2\<lparr>ex_skipped := ex_skipped ex2 + 1 + n\<rparr>, err)"
      "err = None \<longrightarrow> n = length urls
         \<and> ex_inserted ex' + ex_skipped ex' = ex_inserted ex + (ex_skipped ex + 1) + length urls"
      by auto
    from in2 n have "insert_urls clock2 rid E2 (u # urls) ex2
                   = (ex2\<lparr>ex_skipped := ex_skipped ex2 + Suc n\<rparr>, err)
        \<and> (err = None \<longrightarrow> Suc n = length (u # urls)
             \<and> ex_inserted ex' + ex_skipped ex' = ex_inserted ex + ex_skipped ex + length (u # urls))"
      by simp
    then show ?thesis by blast
  next
    case False
    show ?thesis
    proof (cases "url_domain u")
      case (Inl e)
      with False assms(4) have "u \<notin> set E2" by auto
      with False Inl Cons.prems(1)
      have "insert_urls clock2 rid E2 (u # urls) ex2 = (ex2\<lparr>ex_skipped := ex_skipped ex2 + 0\<rparr>, err)
              \<and> err \<noteq> None"
        by auto
      then show ?thesis by blast
    next
      case (Inr d)
      let ?l = "\<lparr>rl_report_id = rid, rl_url = u, rl_domain = d, rl_safety = None,
                 rl_created_on = clock (ex_ticks ex), rl_updated_on = clock (ex_ticks ex + 1),
                 rl_deleted = False\<rparr>"
      let ?ex = "ex\<lparr>ex_links := insert_simple (ex_links ex) ?l,
                    ex_inserted := ex_inserted ex + 1, ex_ticks := ex_ticks ex + 2\<rparr>"
      from False Inr Cons.prems(1) have run: "insert_urls clock rid E urls ?ex = (ex', err)"
        by simp
      from insert_urls_links[OF run] have "?l \<in> set (ex_links ex')"
        by (auto simp: insert_simple_def)
      with Cons.prems(2) have in2: "u \<in> set E2" by force
      from Cons.IH[OF run Cons.prems(2), of "ex2\<lparr>ex_skipped := ex_skipped ex2 + 1\<rparr>"]
      obtain n where n:
        "insert_urls clock2 rid E2 urls (ex2\<lparr>ex_skipped := ex_skipped ex2 + 1\<rparr>)
           = (ex2\<lparr>ex_skipped := ex_skipped ex2 + 1 + n\<rparr>, err)"
        "err = None \<longrightarrow> n = length urls
           \<and> ex_inserted ex' + ex_skipped ex' = (ex_inserted ex + 1) + ex_skipped ex + length urls"
        by auto
      from in2 n have "insert_urls clock2 rid E2 (u # urls) ex2
                     = (ex2\<lparr>ex_skipped := ex_skipped ex2 + Suc n\<rparr>, err)
          \<and> (err = None \<longrightarrow> Suc n = length (u # urls)
               \<and> ex_inserted ex' + ex_skipped ex' = ex_inserted ex + ex_skipped ex + length (u # urls))"
        by simp
      then show ?thesis by blast
    qed
  qed
qed


lemma extract_rows_links:
  assumes "extract_rows clock rows ex = (ex', err)"
  shows "\<exists>new. ex_links ex' = ex_links ex @ new
           \<and> (\<forall>l \<in> set new. \<exists>d. url_domain (rl_url l) = Inr d)"
  using assms
proof (induction rows arbitrary: ex)
  case Nil
  then show ?case by simp
next
  case (Cons r rows)
  let ?urls = "extract_urls (scanned_text r)"
  show ?case
  proof (cases "?urls = []")
    case True
    with Cons.prems have "extract_rows clock rows ex = (ex', err)" by simp
    from Cons.IH[OF this] show ?thesis .
  next
    case False
    obtain exm errm where
      m: "insert_urls clock (lr_id r) (recorded_urls (lr_id r) (ex_links ex)) ?urls ex = (exm, errm)"
      by (cases "insert_urls clock (lr_id r) (recorded_urls (lr_id r) (ex_links ex)) ?urls ex")
    from insert_urls_links[OF m] obtain new1 where
      new1: "ex_links exm = ex_links ex @ new1"
        "\<forall>l \<in> set new1. \<exists>d. url_domain (rl_url l) = Inr d"
      by blast
    show ?thesis
    proof (cases errm)
      case None
      with False m Cons.prems have "extract_rows clock rows exm = (ex', err)"
        by (simp add: Let_def)
      from Cons.IH[OF this] obtain new2 where
        new2: "ex_links ex' = ex_links exm @ new2"
          "\<forall>l \<in> set new2. \<exists>d. url_domain (rl_url l) = Inr d"
        by blast
      from new1 new2 have "ex_links ex' = ex_links ex @ (new1 @ new2)
          \<and> (\<forall>l \<in> set (new1 @ new2). \<exists>d. url_domain (rl_url l) = Inr d)"
        by auto
      then show ?thesis by blast
    next
      case (Some e)
      with False m Cons.prems have "ex' = exm" by (simp add: Let_def)
      with new1 show ?thesis by blast
    qed
  qed
qed

lemma rerun_conditions:
  assumes "links1 = links @ new1" and "links2 = links1 @ new2"
    and "\<forall>l \<in> set new1. \<exists>d. url_domain (rl_url l) = Inr d"
    and "\<forall>l \<in> set new2. \<exists>d. url_domain (rl_url l) = Inr d"
  shows "set (recorded_urls rid links) \<subseteq> set (recorded_urls rid links2)"
    and "\<forall>l \<in> set links1. rl_report_id l = rid \<longrightarrow> rl_url l \<in> set (recorded_urls rid links2)"
    and "\<forall>u \<in> set (recorded_urls rid links2).
           u \<in> set (recorded_urls rid links) \<or> (\<exists>d. url_domain u = Inr d)"
  using assms by (auto simp: recorded_urls_def)

lemma extract_rows_rerun:
  assumes "extract_rows clock rows ex = (ex1, err)" and "ex_links ex2 = ex_links ex1"
  shows "\<exists>n. extract_rows clock2 rows ex2 = (ex2\<lparr>ex_skipped := ex_skipped ex2 + n\<rparr>, err)
           \<and> (err = None \<longrightarrow> n = tokens_found rows
                 \<and> ex_inserted ex1 + ex_skipped ex1 = ex_inserted ex + ex_skipped ex + n)"
  using assms
proof (induction rows arbitrary: ex ex2)
  case Nil
  then have "extract_rows clock2 [] ex2 = (ex2\<lparr>ex_skipped := ex_skipped ex2 + 0\<rparr>, err)
           \<and> (err = None \<longrightarrow> 0 = tokens_found []
                 \<and> ex_inserted ex1 + ex_skipped ex1 = ex_inserted ex + ex_skipped ex + 0)"
    by (auto simp: tokens_found_def)
  then show ?case by blast
next
  case (Cons r rows)
  let ?urls = "extract_urls (scanned_text r)"
  let ?rid = "lr_id r"
  show ?case
  proof (cases "?urls = []")
    case True
    with Cons.prems have "extract_rows clock rows ex = (ex1, err)" by simp
    from Cons.IH[OF this Cons.prems(2)] obtain n where
      "extract_rows clock2 rows ex2 = (ex2\<lparr>ex_skipped := ex_skipped ex2 + n\<rparr>, err)"
      "err = None \<longrightarrow> n = tokens_found rows
          \<and> ex_inserted ex1 + ex_skipped ex1 = ex_inserted ex + ex_skipped ex + n"
      by blast
    with True have "extract_rows clock2 (r # rows) ex2 = (ex2\<lparr>ex_skipped := ex_skipped ex2 + n\<rparr>, err)
        \<and> (err = None \<longrightarrow> n = tokens_found (r # rows)
              \<and> ex_inserted ex1 + ex_skipped ex1 = ex_inserted ex + ex_skipped ex + n)"
      by (simp add: tokens_found_def)
    then show ?thesis by blast
  next
    case False
    obtain exm errm where
      m: "insert_urls clock ?rid (recorded_urls ?rid (ex_links ex)) ?urls ex = (exm, errm)"
      by (cases "insert_urls clock ?rid (recorded_urls ?rid (ex_links ex)) ?urls ex")
    from insert_urls_links[OF m] obtain new1 where
      new1: "ex_links exm = ex_links ex @ new1"
        "\<forall>l \<in> set new1. \<exists>d. url_domain (rl_url l) = Inr d"
      by blast
    show ?thesis
    proof (cases errm)
      case (Some e)
      with False m Cons.prems(1) have fin: "ex1 = exm" "err = Some e" by (simp_all add: Let_def)
      have "ex_links exm = ex_links exm @ []" by simp
      from rerun_conditions[OF new1(1) this new1(2), of ?rid] Cons.prems(2) fin
      have c: "set (recorded_urls ?rid (ex_links ex)) \<subseteq> set (recorded_urls ?rid (ex_links ex2))"
        "\<forall>l \<in> set (ex_links exm). rl_report_id l = ?rid
            \<longrightarrow> rl_url l \<in> set (recorded_urls ?rid (ex_links ex2))"
        "\<forall>u \<in> set (recorded_urls ?rid (ex_links ex2)).
           u \<in> set (recorded_urls ?rid (ex_links ex)) \<or> (\<exists>d. url_domain u = Inr d)"
        by simp_all
      from insert_urls_rerun[OF m c, of clock2 ex2] obtain n where
        "insert_urls clock2 ?rid (recorded_urls ?rid (ex_links ex2)) ?urls ex2
           = (ex2\<lparr>ex_skipped := ex_skipped ex2 + n\<rparr>, errm)"
        by blast
      with False Some fin
      have "extract_rows clock2 (r # rows) ex2 = (ex2\<lparr>ex_skipped := ex_skipped ex2 + n\<rparr>, err)
              \<and> err \<noteq> None"
        by (simp add: Let_def)
      then show ?thesis by blast
    next
      case None
      with False m Cons.prems(1) have rest: "extract_rows clock rows exm = (ex1, err)"
        by (simp add: Let_def)
      from extract_rows_links[OF rest] obtain new2 where
        new2: "ex_links ex1 = ex_links exm @ new2"
          "\<forall>l \<in> set new2. \<exists>d. url_domain (rl_url l) = Inr d"
        by blast
      from rerun_conditions[OF new1(1) new2(1) new1(2) new2(2), of ?rid] Cons.prems(2)
      have c: "set (recorded_urls ?rid (ex_links ex)) \<subseteq> set (recorded_urls ?rid (ex_links ex2))"
        "\<forall>l \<in> set (ex_links exm). rl_report_id l = ?rid
            \<longrightarrow> rl_url l \<in> set (recorded_urls ?rid (ex_links ex2))"
        "\<forall>u \<in> set (recorded_urls ?rid (ex_links ex2)).
           u \<in> set (recorded_urls ?rid (ex_links ex)) \<or> (\<exists>d. url_domain u = Inr d)"
        by simp_all
      from insert_urls_rerun[OF m c, of clock2 ex2] None obtain k where
        k: "insert_urls clock2 ?rid (recorded_urls ?rid (ex_links ex2)) ?urls ex2
              = (ex2\<lparr>ex_skipped := ex_skipped ex2 + k\<rparr>, None)"
          "k = length ?urls"
          "ex_inserted exm + ex_skipped exm = ex_inserted ex + ex_skipped ex + length ?urls"
        by blast
      let ?ex2 = "ex2\<lparr>ex_skipped := ex_skipped ex2 + k\<rparr>"
      from Cons.prems(2) have "ex_links ?ex2 = ex_links ex1" by simp
      from Cons.IH[OF rest this] obtain n where
        n: "extract_rows clock2 rows ?ex2 = (?ex2\<lparr>ex_skipped := ex_skipped ?ex2 + n\<rparr>, err)"
          "err = None \<longrightarrow> n = tokens_found rows
             \<and> ex_inserted ex1 + ex_skipped ex1 = ex_inserted exm + ex_skipped exm + n"
        by blast
      from False k n
      have "extract_rows clock2 (r # rows) ex2 = (ex2\<lparr>ex_skipped := ex_skipped ex2 + (k + n)\<rparr>, err)
          \<and> (err = None \<longrightarrow> k + n = tokens_found (r # rows)
                \<and> ex_inserted ex1 + ex_skipped ex1 = ex_inserted ex + ex_skipped ex + (k + n))"
        by (simp add: Let_def tokens_found_def add.assoc)
      then show ?thesis by blast
    qed
  qed
qed

text \<open>
  C4. Run the extraction, then run it again on the store the first run left (the
  reports and their text are the same). The second run leaves the store as it found
  it: it inserts no link. When the first run ended with its success message, counting
  \<open>i\<close> inserted and \<open>s\<close> skipped, the second run reports 0 inserted and
  \<open>i + s\<close> skipped, which is the number of URL tokens the first run found. When
  the first run was ended by an exception of the URL parser, so is the second.
\<close>

theorem extraction_rerun_inserts_nothing:
  assumes "run_extraction clock st = (st1, out1)"
    and "run_extraction clock2 st1 = (st2, out2)"
  shows "st2 = st1
         \<and> (\<forall>i s. out1 = Complete i s
               \<longrightarrow> out2 = Complete 0 (i + s) \<and> i + s = tokens_found (selected_reports st))
         \<and> (\<forall>e. out1 = Raised e \<longrightarrow> out2 = Raised e)"
proof -
  let ?ex0 = "\<lparr>ex_links = l_report_links st, ex_inserted = 0, ex_skipped = 0, ex_ticks = 0\<rparr>"
  obtain ex1 err where run1: "extract_rows clock (selected_reports st) ?ex0 = (ex1, err)"
    by (cases "extract_rows clock (selected_reports st) ?ex0")
  with assms(1) have st1: "st1 = st\<lparr>l_report_links := ex_links ex1\<rparr>"
    and out1: "out1 = (case err of None \<Rightarrow> Complete (ex_inserted ex1) (ex_skipped ex1)
                        | Some e \<Rightarrow> Raised e)"
    by (simp_all add: run_extraction_def)
  let ?ex2 = "\<lparr>ex_links = l_report_links st1, ex_inserted = 0, ex_skipped = 0, ex_ticks = 0\<rparr>"
  from st1 have sel: "selected_reports st1 = selected_reports st"
    by (simp add: selected_reports_def)
  from st1 have "ex_links ?ex2 = ex_links ex1" by simp
  from extract_rows_rerun[OF run1 this, of clock2] obtain n where
    n: "extract_rows clock2 (selected_reports st) ?ex2 = (?ex2\<lparr>ex_skipped := ex_skipped ?ex2 + n\<rparr>, err)"
      "err = None \<longrightarrow> n = tokens_found (selected_reports st)
         \<and> ex_inserted ex1 + ex_skipped ex1 = ex_inserted ?ex0 + ex_skipped ?ex0 + n"
    by blast
  from assms(2) sel n(1) have st2: "st2 = st1"
    and out2: "out2 = (case err of None \<Rightarrow> Complete 0 n | Some e \<Rightarrow> Raised e)"
    by (cases err; auto simp: run_extraction_def)+
  from out1 out2 n(2) st2 show ?thesis
    by (cases err) auto
qed


theorem extraction_rerun_inserts_nothing_witness:
  "run_extraction sample_clock repeated_url_store
     = (fst (run_extraction sample_clock repeated_url_store), Complete 2 0)
   \<and> run_extraction sample_clock (fst (run_extraction sample_clock repeated_url_store))
     = (fst (run_extraction sample_clock repeated_url_store), Complete 0 2)
   \<and> tokens_found (selected_reports repeated_url_store) = 2"
proof -
  let ?st1 = "fst (run_extraction sample_clock repeated_url_store)"
  have out1: "snd (run_extraction sample_clock repeated_url_store) = Complete 2 0"
    by code_simp
  then have r1: "run_extraction sample_clock repeated_url_store = (?st1, Complete 2 0)"
    by (metis prod.collapse)
  have r2: "run_extraction sample_clock ?st1
              = (fst (run_extraction sample_clock ?st1), snd (run_extraction sample_clock ?st1))"
    by simp
  from extraction_rerun_inserts_nothing[OF r1 r2] r1 show ?thesis
    by (simp add: prod_eq_iff)
qed


subsection \<open>The same token twice in one text\<close>

text \<open>
  C3. A report whose text holds the token \<open>http://a.co\<close> twice and that has no
  link recorded yet: one run inserts two links with that URL, neither of them deleted,
  and counts no duplicate.
\<close>

theorem repeated_url_inserted_twice:
  "run_extraction sample_clock repeated_url_store
     = (repeated_url_store
          \<lparr>l_report_links :=
             [\<lparr>rl_report_id = 1, rl_url = ''http://a.co'', rl_domain = ''a.co'', rl_safety = None,
               rl_created_on = 1000, rl_updated_on = 1001, rl_deleted = False\<rparr>,
              \<lparr>rl_report_id = 1, rl_url = ''http://a.co'', rl_domain = ''a.co'', rl_safety = None,
               rl_created_on = 1002, rl_updated_on = 1003, rl_deleted = False\<rparr>]\<rparr>,
        Complete 2 0)"
  by code_simp


subsection \<open>The scenario of the specification\<close>

lemma scenario_urls:
  "extract_urls (''Win now http://bit.ly/x and www.scam.test/y'' @ [CHR 0x0A])
     = [''http://bit.ly/x'', ''www.scam.test/y'']"
  by code_simp

lemma scenario_domains:
  "url_domain ''http://bit.ly/x'' = Inr ''bit.ly''"
  "url_domain ''www.scam.test/y'' = Inr ''www.scam.test/y''"
  by code_simp+

text \<open>
  C5 as amended. For a store whose only report carries the message
  \<open>Win now http://bit.ly/x and www.scam.test/y\<close>, no OCR text and the
  \<open>contain_link\<close> mark, is not deleted and has no link recorded yet, one run inserts
  exactly two links, for \<open>http://bit.ly/x\<close> with domain \<open>bit.ly\<close> and for
  \<open>www.scam.test/y\<close> with the token itself as domain, and counts 2 inserted and 0
  skipped; a second run inserts nothing and counts 0 inserted and 2 skipped.
\<close>

theorem scenario_extraction:
  assumes "l_reports st = [r]"
    and "lr_message_content r = Some ''Win now http://bit.ly/x and www.scam.test/y''"
    and "lr_ocr_preview r = None"
    and "lr_contain_link r" and "\<not> lr_deleted r"
    and "recorded_urls (lr_id r) (l_report_links st) = []"
  shows "run_extraction clock st
           = (st\<lparr>l_report_links := l_report_links st @
                  [\<lparr>rl_report_id = lr_id r, rl_url = ''http://bit.ly/x'', rl_domain = ''bit.ly'',
                    rl_safety = None, rl_created_on = clock 0, rl_updated_on = clock 1,
                    rl_deleted = False\<rparr>,
                   \<lparr>rl_report_id = lr_id r, rl_url = ''www.scam.test/y'',
                    rl_domain = ''www.scam.test/y'',
                    rl_safety = None, rl_created_on = clock 2, rl_updated_on = clock 3,
                    rl_deleted = False\<rparr>]\<rparr>,
              Complete 2 0)
         \<and> run_extraction clock2 (fst (run_extraction clock st))
           = (fst (run_extraction clock st), Complete 0 2)"
proof -
  from assms(1,4,5) have sel: "selected_reports st = [r]"
    by (simp add: selected_reports_def)
  from assms(2,3) have toks: "extract_urls (scanned_text r)
                               = [''http://bit.ly/x'', ''www.scam.test/y'']"
    using scenario_urls by (simp add: scanned_text_def)
  let ?l1 = "\<lparr>rl_report_id = lr_id r, rl_url = ''http://bit.ly/x'', rl_domain = ''bit.ly'',
                    rl_safety = None, rl_created_on = clock 0, rl_updated_on = clock 1,
                    rl_deleted = False\<rparr>"
  let ?l2 = "\<lparr>rl_report_id = lr_id r, rl_url = ''www.scam.test/y'',
                    rl_domain = ''www.scam.test/y'',
                    rl_safety = None, rl_created_on = clock 2, rl_updated_on = clock 3,
                    rl_deleted = False\<rparr>"
  let ?st1 = "st\<lparr>l_report_links := l_report_links st @ [?l1, ?l2]\<rparr>"
  have first: "run_extraction clock st = (?st1, Complete 2 0)"
    using sel toks assms(6) scenario_domains
    by (simp add: run_extraction_def insert_simple_def Let_def
          numeral_2_eq_2[symmetric] numeral_3_eq_3[symmetric])
  have sel1: "selected_reports ?st1 = [r]"
    using sel by (simp add: selected_reports_def)
  have rec1: "set (recorded_urls (lr_id r) (l_report_links ?st1))
                = {''http://bit.ly/x'', ''www.scam.test/y''}"
    using assms(6) by (auto simp: recorded_urls_def)
  have second: "run_extraction clock2 ?st1 = (?st1, Complete 0 2)"
    using sel1 toks rec1
    by (simp add: run_extraction_def Let_def)
  from first second show ?thesis by simp
qed


theorem scenario_extraction_witness:
  "l_reports sample_legacy_store = [sample_legacy_report]
   \<and> lr_message_content sample_legacy_report = Some ''Win now http://bit.ly/x and www.scam.test/y''
   \<and> lr_ocr_preview sample_legacy_report = None
   \<and> lr_contain_link sample_legacy_report \<and> \<not> lr_deleted sample_legacy_report
   \<and> recorded_urls (lr_id sample_legacy_report) (l_report_links sample_legacy_store) = []
   \<and> map rl_domain (l_report_links (fst (run_extraction sample_clock sample_legacy_store)))
        = [''bit.ly'', ''www.scam.test/y'']
   \<and> snd (run_extraction sample_clock sample_legacy_store) = Complete 2 0
   \<and> snd (run_extraction sample_clock (fst (run_extraction sample_clock sample_legacy_store)))
        = Complete 0 2"
proof -
  have h: "l_reports sample_legacy_store = [sample_legacy_report]"
    "lr_message_content sample_legacy_report = Some ''Win now http://bit.ly/x and www.scam.test/y''"
    "lr_ocr_preview sample_legacy_report = None"
    "lr_contain_link sample_legacy_report" "\<not> lr_deleted sample_legacy_report"
    "recorded_urls (lr_id sample_legacy_report) (l_report_links sample_legacy_store) = []"
    by (simp_all add: sample_legacy_store_def sample_legacy_report_def recorded_urls_def)
  note run = scenario_extraction[OF h, of sample_clock sample_clock]
  note run1 = run[THEN conjunct1] and run2 = run[THEN conjunct2]
  from run1 have first: "snd (run_extraction sample_clock sample_legacy_store) = Complete 2 0"
    by simp
  from run2 have second:
    "snd (run_extraction sample_clock (fst (run_extraction sample_clock sample_legacy_store)))
       = Complete 0 2"
    by simp
  from run1 have "l_report_links (fst (run_extraction sample_clock sample_legacy_store))
      = l_report_links sample_legacy_store @
          [\<lparr>rl_report_id = lr_id sample_legacy_report, rl_url = ''http://bit.ly/x'',
            rl_domain = ''bit.ly'', rl_safety = None, rl_created_on = sample_clock 0,
            rl_updated_on = sample_clock 1, rl_deleted = False\<rparr>,
           \<lparr>rl_report_id = lr_id sample_legacy_report, rl_url = ''www.scam.test/y'',
            rl_domain = ''www.scam.test/y'', rl_safety = None, rl_created_on = sample_clock 2,
            rl_updated_on = sample_clock 3, rl_deleted = False\<rparr>]"
    by simp
  then have domains:
    "map rl_domain (l_report_links (fst (run_extraction sample_clock sample_legacy_store)))
       = [''bit.ly'', ''www.scam.test/y'']"
    by (simp add: sample_legacy_store_def)
  from h first second domains show ?thesis by simp
qed

text \<open>
  C5 as stated fails in the second domain: \<open>www.scam.test/y\<close> has no scheme, so
  the URL parser finds no network location in it and the link takes the whole token as
  its domain, not \<open>www.scam.test\<close>.
\<close>

theorem scenario_domain_counterexample:
  "map rl_domain (l_report_links (fst (run_extraction sample_clock sample_legacy_store)))
     = [''bit.ly'', ''www.scam.test/y'']
   \<and> map rl_domain (l_report_links (fst (run_extraction sample_clock sample_legacy_store)))
     \<noteq> [''bit.ly'', ''www.scam.test'']"
  by code_simp

section \<open>Search results\<close>

subsection \<open>The text filter\<close>

text \<open>
  The backslash in a pattern: a user's text made of \<open>0\<close>, a backslash and \<open>%\<close>
  finds the text \<open>0%\<close> and nothing else, where the user's text \<open>0%\<close> finds any
  \<open>0\<close>; a pattern that ends in a lone backslash is refused.
\<close>

lemma escape_examples:
  "ilike lower_char (Some ''Only 50% off'') (''%'' @ [CHR ''0'', CHR 0x5C, CHR ''%''] @ ''%'') = Inr True"
  "ilike lower_char (Some ''Only 500 off'') (''%'' @ [CHR ''0'', CHR 0x5C, CHR ''%''] @ ''%'') = Inr False"
  "ilike lower_char (Some ''Only 500 off'') (''%'' @ ''0%'' @ ''%'') = Inr True"
  "ilike lower_char (Some ''abc'') [CHR ''a'', CHR 0x5C] = Inl DataError"
  by code_simp+


lemma parse_like_step:
  assumes "ps \<noteq> []" and "p \<noteq> CHR 0x5C"
  shows "parse_like (p # ps) = cons_token (like_token_of p) (parse_like ps)"
  using assms by (cases ps) simp_all

lemma parse_like_plain:
  assumes "list_all (\<lambda>c. \<not> pattern_char c) q"
  shows "parse_like (q @ ''%'') = Inr (map Literal q @ [AnyRun])"
  using assms
proof (induction q)
  case Nil
  then show ?case by (simp add: like_token_of_def)
next
  case (Cons a q)
  then have a: "a \<noteq> CHR 0x5C" "like_token_of a = Literal a"
    by (auto simp: pattern_char_def like_token_of_def)
  have "parse_like (a # (q @ ''%'')) = cons_token (like_token_of a) (parse_like (q @ ''%''))"
    using a(1) by (intro parse_like_step) simp_all
  with Cons a show ?case by (simp add: cons_token_def)
qed

lemma pattern_with_percent_parses: "\<exists>ts. parse_like (p @ ''%'') = Inr ts"
proof (induction p rule: parse_like.induct)
  case 1
  then show ?case by simp
next
  case (2 p)
  then show ?case by (simp add: cons_token_def)
next
  case (3 p c rest)
  show ?case
  proof (cases "p = CHR 0x5C")
    case True
    with 3(1) obtain ts where "parse_like (rest @ ''%'') = Inr ts" by blast
    with True show ?thesis by (simp add: cons_token_def)
  next
    case False
    with 3(2) obtain ts where "parse_like ((c # rest) @ ''%'') = Inr ts" by blast
    with False show ?thesis by (simp add: cons_token_def)
  qed
qed

lemma wrapped_pattern_parses: "\<exists>ts. parse_like (''%'' @ q @ ''%'') = Inr ts"
  using pattern_with_percent_parses[of "''%'' @ q"] by simp

lemma like_tokens_any_run:
  "like_tokens f (AnyRun # ts) s \<longleftrightarrow> (\<exists>t. suffix t s \<and> like_tokens f ts t)"
proof (induction s)
  case Nil
  then show ?case by simp
next
  case (Cons c cs)
  have "like_tokens f (AnyRun # ts) (c # cs)
          \<longleftrightarrow> like_tokens f ts (c # cs) \<or> like_tokens f (AnyRun # ts) cs"
    by simp
  also have "\<dots> \<longleftrightarrow> like_tokens f ts (c # cs) \<or> (\<exists>t. suffix t cs \<and> like_tokens f ts t)"
    using Cons.IH by simp
  also have "\<dots> \<longleftrightarrow> (\<exists>t. suffix t (c # cs) \<and> like_tokens f ts t)"
    by (auto simp: suffix_Cons)
  finally show ?case .
qed

lemma like_tokens_end_run: "like_tokens f [AnyRun] t"
  by (induction t) simp_all

lemma like_tokens_literal:
  "like_tokens f (map Literal q @ [AnyRun]) t \<longleftrightarrow> prefix (map f q) (map f t)"
proof (induction q arbitrary: t)
  case Nil
  then show ?case by (simp add: like_tokens_end_run)
next
  case (Cons c q)
  then show ?case by (cases t) auto
qed

lemma sublist_of_folded:
  "sublist (map f q) (map f s) \<longleftrightarrow> (\<exists>t. suffix t s \<and> prefix (map f q) (map f t))"
proof
  assume "sublist (map f q) (map f s)"
  then obtain ps ss where eq: "map f s = ps @ map f q @ ss"
    by (auto simp: sublist_def)
  let ?t = "drop (length ps) s"
  have "suffix ?t s" by (rule suffix_drop)
  moreover have "map f ?t = map f q @ ss"
    using eq by (metis append_eq_conv_conj drop_map)
  ultimately show "\<exists>t. suffix t s \<and> prefix (map f q) (map f t)"
    by (metis prefixI)
next
  assume "\<exists>t. suffix t s \<and> prefix (map f q) (map f t)"
  then obtain t u ss where "s = u @ t" and "map f t = map f q @ ss"
    by (auto simp: suffix_def prefix_def)
  then have "map f s = map f u @ map f q @ ss" by simp
  then show "sublist (map f q) (map f s)"
    unfolding sublist_def by blast
qed

lemma ilike_contains:
  assumes "list_all (\<lambda>c. \<not> pattern_char c) q"
  shows "ilike f (Some s) (''%'' @ q @ ''%'') = Inr (sublist (map f q) (map f s))"
proof -
  have "parse_like (CHR ''%'' # (q @ ''%'')) = cons_token AnyRun (parse_like (q @ ''%''))"
    using parse_like_step[of "q @ ''%''" "CHR ''%''"] by (simp add: like_token_of_def)
  then have p: "parse_like (''%'' @ q @ ''%'') = Inr (AnyRun # map Literal q @ [AnyRun])"
    using parse_like_plain[OF assms] by (simp add: cons_token_def)
  have "like_tokens f (AnyRun # map Literal q @ [AnyRun]) s
          \<longleftrightarrow> (\<exists>t. suffix t s \<and> prefix (map f q) (map f t))"
    by (simp only: like_tokens_any_run like_tokens_literal)
  then have "like_tokens f (AnyRun # map Literal q @ [AnyRun]) s
          \<longleftrightarrow> sublist (map f q) (map f s)"
    by (simp only: sublist_of_folded)
  with p show ?thesis by (simp add: ilike_def)
qed

lemma text_filter_spec:
  assumes "list_all (\<lambda>c. \<not> pattern_char c) q"
  shows "text_filter f q r \<longleftrightarrow> spec_text_condition f q r"
proof -
  have "ilike f col (''%'' @ q @ ''%'') = Inr True \<longleftrightarrow> contains_ci f q col" for col
    using ilike_contains[OF assms, of f] by (cases col) (simp_all add: contains_ci_def ilike_def)
  then show ?thesis
    by (simp add: text_filter_def spec_text_condition_def Let_def)
qed

subsection \<open>Public search and admin search\<close>

lemma created_desc_sorted:
  "sorted_wrt (\<lambda>a b. r_created_on b \<le> r_created_on a) (order_by_created_desc rs)"
proof -
  have "sorted (map (\<lambda>r. - r_created_on r) (order_by_created_desc rs))"
    by (simp add: order_by_created_desc_def)
  then show ?thesis by (simp add: sorted_map)
qed

lemma created_desc_mset: "mset (order_by_created_desc rs) = mset rs"
  by (simp add: order_by_created_desc_def)

lemma take_of_sorted:
  assumes "sorted_wrt R ys"
  shows "sorted_wrt R (take n ys)"
    and "\<exists>rest. mset ys = mset (take n ys) + mset rest
            \<and> (\<forall>a \<in> set (take n ys). \<forall>b \<in> set rest. R a b)"
proof -
  from assms have s: "sorted_wrt R (take n ys @ drop n ys)" by simp
  then show "sorted_wrt R (take n ys)" by (simp only: sorted_wrt_append)
  have "mset ys = mset (take n ys) + mset (drop n ys)"
    by (metis append_take_drop_id mset_append)
  moreover from s have "\<forall>a \<in> set (take n ys). \<forall>b \<in> set (drop n ys). R a b"
    by (simp only: sorted_wrt_append) blast
  ultimately show "\<exists>rest. mset ys = mset (take n ys) + mset rest
            \<and> (\<forall>a \<in> set (take n ys). \<forall>b \<in> set rest. R a b)"
    by blast
qed

lemma admin_page_overflow:
  assumes "9223372036854775807 < 25 * (max page 1 - 1)"
  shows "admin_page st tolower admin_user status show_deleted q page = Inl DataError"
  using assms by (simp add: admin_page_def Let_def mult.commute)

lemma admin_page_returns:
  assumes "25 * (max page 1 - 1) \<le> 9223372036854775807"
  shows "admin_page st tolower admin_user status show_deleted q page
     = Inr \<lparr>ac_reports =
               take 25 (drop (25 * nat (max page 1 - 1))
                 (order_by_created_desc
                    (filter (admin_where tolower status show_deleted q) (reports st)))),
             ac_admin_user = admin_user,
             ac_status = status,
             ac_show_deleted = show_deleted,
             ac_q = q,
             ac_page = max page 1,
             ac_total_pages =
               max ((int (length (filter (admin_where tolower status show_deleted q)
                                    (reports st))) + 24) div 25) 1,
             ac_total = int (length (filter (admin_where tolower status show_deleted q) (reports st))),
             ac_total_all = int (length (reports st)),
             ac_total_flagged = int (length (filter r_is_flagged (reports st))),
             ac_total_deleted = int (length (filter r_deleted (reports st)))\<rparr>"
proof -
  have "nat ((max page 1 - 1) * 25) = 25 * nat (max page 1 - 1)"
    by (simp add: nat_mult_distrib mult.commute)
  with assms show ?thesis
    by (simp add: admin_page_def Let_def mult.commute)
qed

text \<open>
  C7. Let \<open>res\<close> be the reports that \<open>search_page\<close> lists and \<open>M\<close> the stored
  reports that satisfy its WHERE clause, under whatever case folding the database
  uses. Every listed report is stored, neither deleted nor flagged, of the requested
  type when one is given (not empty, not \<open>all\<close>) and passes the text filter when a
  text is given. \<open>res\<close> holds 200 reports or all of \<open>M\<close> if these are fewer, newest
  first, and every report of \<open>M\<close> left out is no newer than any listed one. The
  admin page, for a page whose offset \<open>25 * (page - 1)\<close> the database can take,
  answers with reports that pass the same text filter, a stretch of at most 25 of the
  matching reports in descending order of creation, starting after the offset; its
  total is the number of matching reports, and its number of pages is the least
  number of pages of 25 that hold them all, and at least 1. For a greater offset the
  handler ends with the database's exception. The pattern of the text filter is never
  refused by the database, and for a text without \<open>%\<close>, \<open>_\<close> and backslash the
  filter says that the text occurs, letter case aside, in the message body, the
  source identifier or the subject.
\<close>

theorem search_results:
  assumes res: "res = sc_reports (search_page st tolower q report_type)"
    and M: "M = filter (search_where tolower q report_type) (reports st)"
    and A: "A = filter (admin_where tolower status show_deleted aq) (reports st)"
  shows
    "(\<forall>r \<in> set res.
        r \<in> set (reports st) \<and> \<not> r_deleted r \<and> \<not> r_is_flagged r
        \<and> (\<forall>t. report_type = Some t \<and> t \<noteq> [] \<and> t \<noteq> ''all'' \<longrightarrow> r_report_type r = t)
        \<and> (\<forall>s. q = Some s \<and> s \<noteq> [] \<longrightarrow> text_filter tolower s r))
     \<and> length res = min 200 (length M)
     \<and> sorted_wrt (\<lambda>a b. r_created_on b \<le> r_created_on a) res
     \<and> (\<exists>rest. mset M = mset res + mset rest
           \<and> (\<forall>a \<in> set res. \<forall>b \<in> set rest. r_created_on b \<le> r_created_on a))
     \<and> (25 * (max page 1 - 1) \<le> 9223372036854775807 \<longrightarrow>
          (\<exists>ctx. admin_page st tolower admin_user status show_deleted aq page = Inr ctx
             \<and> (\<forall>r \<in> set (ac_reports ctx).
                   r \<in> set A \<and> (aq \<noteq> [] \<longrightarrow> text_filter tolower aq r))
             \<and> ac_reports ctx
                 = take 25 (drop (25 * nat (max page 1 - 1)) (order_by_created_desc A))
             \<and> length (ac_reports ctx) \<le> 25
             \<and> sorted_wrt (\<lambda>a b. r_created_on b \<le> r_created_on a) (ac_reports ctx)
             \<and> ac_total ctx = int (length A)
             \<and> 1 \<le> ac_total_pages ctx
             \<and> ac_total ctx \<le> 25 * ac_total_pages ctx
             \<and> (ac_total ctx = 0 \<or> 25 * (ac_total_pages ctx - 1) < ac_total ctx)))
     \<and> (9223372036854775807 < 25 * (max page 1 - 1) \<longrightarrow>
          admin_page st tolower admin_user status show_deleted aq page = Inl DataError)
     \<and> mset (order_by_created_desc A) = mset A
     \<and> (\<forall>s. \<exists>ts. parse_like (''%'' @ s @ ''%'') = Inr ts)
     \<and> (\<forall>s r. list_all (\<lambda>c. \<not> pattern_char c) s
           \<longrightarrow> text_filter tolower s r = spec_text_condition tolower s r)"
proof -
  let ?desc = "\<lambda>a b. r_created_on b \<le> r_created_on a"
  have res_eq: "res = take 200 (order_by_created_desc M)"
    by (simp add: res M sc_reports_search_page)
  have p1: "\<forall>r \<in> set res.
        r \<in> set (reports st) \<and> \<not> r_deleted r \<and> \<not> r_is_flagged r
        \<and> (\<forall>t. report_type = Some t \<and> t \<noteq> [] \<and> t \<noteq> ''all'' \<longrightarrow> r_report_type r = t)
        \<and> (\<forall>s. q = Some s \<and> s \<noteq> [] \<longrightarrow> text_filter tolower s r)"
  proof
    fix r assume "r \<in> set res"
    with set_search_rows[of st tolower q report_type] res
    have "r \<in> set (reports st)" and "search_where tolower q report_type r" by auto
    then show "r \<in> set (reports st) \<and> \<not> r_deleted r \<and> \<not> r_is_flagged r
        \<and> (\<forall>t. report_type = Some t \<and> t \<noteq> [] \<and> t \<noteq> ''all'' \<longrightarrow> r_report_type r = t)
        \<and> (\<forall>s. q = Some s \<and> s \<noteq> [] \<longrightarrow> text_filter tolower s r)"
      by (auto simp: search_where_def split: option.splits if_splits)
  qed
  have "length (order_by_created_desc M) = length M"
    by (simp add: order_by_created_desc_def)
  then have p2: "length res = min 200 (length M)"
    by (simp add: res_eq min.commute)
  have p3: "sorted_wrt ?desc res"
    unfolding res_eq by (rule take_of_sorted(1)[OF created_desc_sorted])
  have p4: "\<exists>rest. mset M = mset res + mset rest
           \<and> (\<forall>a \<in> set res. \<forall>b \<in> set rest. r_created_on b \<le> r_created_on a)"
    using take_of_sorted(2)[OF created_desc_sorted[of M], where n = 200]
    by (simp add: res_eq created_desc_mset)
  have adm: "25 * (max page 1 - 1) \<le> 9223372036854775807 \<longrightarrow>
          (\<exists>ctx. admin_page st tolower admin_user status show_deleted aq page = Inr ctx
             \<and> (\<forall>r \<in> set (ac_reports ctx).
                   r \<in> set A \<and> (aq \<noteq> [] \<longrightarrow> text_filter tolower aq r))
             \<and> ac_reports ctx
                 = take 25 (drop (25 * nat (max page 1 - 1)) (order_by_created_desc A))
             \<and> length (ac_reports ctx) \<le> 25
             \<and> sorted_wrt ?desc (ac_reports ctx)
             \<and> ac_total ctx = int (length A)
             \<and> 1 \<le> ac_total_pages ctx
             \<and> ac_total ctx \<le> 25 * ac_total_pages ctx
             \<and> (ac_total ctx = 0 \<or> 25 * (ac_total_pages ctx - 1) < ac_total ctx))"
  proof
    assume ok: "25 * (max page 1 - 1) \<le> 9223372036854775807"
    define ctx where "ctx =
      \<lparr>ac_reports = take 25 (drop (25 * nat (max page 1 - 1)) (order_by_created_desc A)),
       ac_admin_user = admin_user, ac_status = status, ac_show_deleted = show_deleted,
       ac_q = aq, ac_page = max page 1,
       ac_total_pages = max ((int (length A) + 24) div 25) 1,
       ac_total = int (length A),
       ac_total_all = int (length (reports st)),
       ac_total_flagged = int (length (filter r_is_flagged (reports st))),
       ac_total_deleted = int (length (filter r_deleted (reports st)))\<rparr>"
    have ret: "admin_page st tolower admin_user status show_deleted aq page = Inr ctx"
      unfolding ctx_def A by (rule admin_page_returns[OF ok])
    have page_eq: "ac_reports ctx
         = take 25 (drop (25 * nat (max page 1 - 1)) (order_by_created_desc A))"
      by (simp add: ctx_def)
    have a1: "\<forall>r \<in> set (ac_reports ctx).
                r \<in> set A \<and> (aq \<noteq> [] \<longrightarrow> text_filter tolower aq r)"
    proof
      fix r assume "r \<in> set (ac_reports ctx)"
      then have "r \<in> set (order_by_created_desc A)"
        unfolding page_eq by (meson in_set_dropD in_set_takeD)
      then have inA: "r \<in> set A" by (simp add: order_by_created_desc_def)
      then have "admin_where tolower status show_deleted aq r" by (simp add: A)
      then have "aq \<noteq> [] \<longrightarrow> text_filter tolower aq r" by (simp add: admin_where_def)
      with inA show "r \<in> set A \<and> (aq \<noteq> [] \<longrightarrow> text_filter tolower aq r)" by simp
    qed
    have a2: "length (ac_reports ctx) \<le> 25"
      by (simp add: page_eq)
    have a3: "sorted_wrt ?desc (ac_reports ctx)"
      unfolding page_eq
      by (intro take_of_sorted(1) sorted_wrt_drop created_desc_sorted)
    have tot: "ac_total ctx = int (length A)"
      by (simp add: ctx_def)
    have pages: "ac_total_pages ctx = max ((int (length A) + 24) div 25) 1"
      by (simp add: ctx_def)
    have a5: "1 \<le> ac_total_pages ctx"
      by (simp add: pages)
    have ar: "n \<le> 25 * max ((n + 24) div 25) 1
              \<and> (n = 0 \<or> 25 * (max ((n + 24) div 25) 1 - 1) < n)"
      if "0 \<le> n" for n :: int
      using that unfolding max_def by presburger
    have a6: "ac_total ctx \<le> 25 * ac_total_pages ctx"
      unfolding tot pages using ar[of "int (length A)"] by simp
    have a7: "ac_total ctx = 0 \<or> 25 * (ac_total_pages ctx - 1) < ac_total ctx"
    proof -
      have "0 \<le> int (length A)" by simp
      from ar[OF this] show ?thesis unfolding tot pages by blast
    qed
    from ret a1 page_eq a2 a3 tot a5 a6 a7
    show "\<exists>ctx. admin_page st tolower admin_user status show_deleted aq page = Inr ctx
             \<and> (\<forall>r \<in> set (ac_reports ctx).
                   r \<in> set A \<and> (aq \<noteq> [] \<longrightarrow> text_filter tolower aq r))
             \<and> ac_reports ctx
                 = take 25 (drop (25 * nat (max page 1 - 1)) (order_by_created_desc A))
             \<and> length (ac_reports ctx) \<le> 25
             \<and> sorted_wrt ?desc (ac_reports ctx)
             \<and> ac_total ctx = int (length A)
             \<and> 1 \<le> ac_total_pages ctx
             \<and> ac_total ctx \<le> 25 * ac_total_pages ctx
             \<and> (ac_total ctx = 0 \<or> 25 * (ac_total_pages ctx - 1) < ac_total ctx)"
      by (intro exI[of _ ctx] conjI)
  qed
  have over: "9223372036854775807 < 25 * (max page 1 - 1) \<longrightarrow>
          admin_page st tolower admin_user status show_deleted aq page = Inl DataError"
    using admin_page_overflow by blast
  have a4: "mset (order_by_created_desc A) = mset A"
    by (rule created_desc_mset)
  have t0: "\<forall>s. \<exists>ts. parse_like (''%'' @ s @ ''%'') = Inr ts"
    using wrapped_pattern_parses by blast
  have t2: "\<forall>s r. list_all (\<lambda>c. \<not> pattern_char c) s
           \<longrightarrow> text_filter tolower s r = spec_text_condition tolower s r"
    using text_filter_spec by blast
  show ?thesis
    by (intro conjI) (fact p1 p2 p3 p4 adm over a4 t0 t2)+
qed


text \<open>
  With the folding of the C locale: a search for \<open>WIN\<close> among SMS reports, the first
  admin page for \<open>win\<close>, and an admin page whose offset exceeds 64 bits.
\<close>

theorem search_results_witness:
  "sc_reports (search_page mixed_store lower_char (Some ''WIN'') (Some ''sms''))
     = [prize_report, sample_report]
   \<and> text_filter lower_char ''WIN'' prize_report \<and> text_filter lower_char ''WIN'' sample_report
   \<and> r_report_type prize_report = ''sms''
   \<and> list_all (\<lambda>c. \<not> pattern_char c) ''WIN''
   \<and> spec_text_condition lower_char ''WIN'' sample_report
   \<and> (25::int) * (max 1 1 - 1) \<le> 9223372036854775807
   \<and> map_sum id (\<lambda>c. (map r_id (ac_reports c), ac_total c, ac_total_pages c))
        (admin_page mixed_store lower_char ''admin'' ''all'' 0 ''win'' 1)
      = Inr ([4, 2, 1], 3, 1)
   \<and> (9223372036854775807::int) < 25 * (max 1000000000000000000 1 - 1)
   \<and> admin_page mixed_store lower_char ''admin'' ''all'' 0 ''win'' 1000000000000000000
      = Inl DataError"
proof -
  let ?res = "sc_reports (search_page mixed_store lower_char (Some ''WIN'') (Some ''sms''))"
  note T = search_results[OF refl refl refl, where st = mixed_store and tolower = lower_char
      and q = "Some ''WIN''" and report_type = "Some ''sms''" and admin_user = "''admin''"
      and status = "''all''" and show_deleted = 0 and aq = "''win''" and page = 1]
  note U = search_results[OF refl refl refl, where st = mixed_store and tolower = lower_char
      and q = "Some ''WIN''" and report_type = "Some ''sms''" and admin_user = "''admin''"
      and status = "''all''" and show_deleted = 0 and aq = "''win''"
      and page = 1000000000000000000]
  have rows: "?res = [prize_report, sample_report]"
    by code_simp
  from T have public:
    "\<forall>r \<in> set ?res.
        r \<in> set (reports mixed_store) \<and> \<not> r_deleted r \<and> \<not> r_is_flagged r
        \<and> (\<forall>t. Some ''sms'' = Some t \<and> t \<noteq> [] \<and> t \<noteq> ''all'' \<longrightarrow> r_report_type r = t)
        \<and> (\<forall>s. Some ''WIN'' = Some s \<and> s \<noteq> [] \<longrightarrow> text_filter lower_char s r)"
    by (rule conjunct1)
  from public rows have listed: "text_filter lower_char ''WIN'' prize_report"
    "text_filter lower_char ''WIN'' sample_report" "r_report_type prize_report = ''sms''"
    by simp_all
  from T have spec_eq: "\<forall>s r. list_all (\<lambda>c. \<not> pattern_char c) s
           \<longrightarrow> text_filter lower_char s r = spec_text_condition lower_char s r"
    by blast
  have plain: "list_all (\<lambda>c. \<not> pattern_char c) ''WIN''"
    by (simp add: pattern_char_def)
  with spec_eq listed(2) have spec: "spec_text_condition lower_char ''WIN'' sample_report"
    by blast
  have ok: "(25::int) * (max 1 1 - 1) \<le> 9223372036854775807" by simp
  have over: "(9223372036854775807::int) < 25 * (max 1000000000000000000 1 - 1)" by simp
  from T ok obtain ctx where
    ctx: "admin_page mixed_store lower_char ''admin'' ''all'' 0 ''win'' 1 = Inr ctx"
    and pg: "1 \<le> ac_total_pages ctx" "ac_total ctx \<le> 25 * ac_total_pages ctx"
      "ac_total ctx = 0 \<or> 25 * (ac_total_pages ctx - 1) < ac_total ctx"
    by blast
  have ev: "map_sum id (\<lambda>c. (map r_id (ac_reports c), ac_total c))
              (admin_page mixed_store lower_char ''admin'' ''all'' 0 ''win'' 1)
            = Inr ([4, 2, 1], 3)"
    by code_simp
  with ctx have ids: "map r_id (ac_reports ctx) = [4, 2, 1]" and total: "ac_total ctx = 3"
    by simp_all
  from pg total have pages: "ac_total_pages ctx = 1" by simp
  from ctx ids total pages
  have admin: "map_sum id (\<lambda>c. (map r_id (ac_reports c), ac_total c, ac_total_pages c))
        (admin_page mixed_store lower_char ''admin'' ''all'' 0 ''win'' 1)
      = Inr ([4, 2, 1], 3, 1)"
    by simp
  from U over
  have big: "admin_page mixed_store lower_char ''admin'' ''all'' 0 ''win'' 1000000000000000000
      = Inl DataError"
    by blast
  from rows listed plain spec ok admin over big show ?thesis by simp
qed

section \<open>Moderation transitions and the audit trail\<close>

lemma map_replace_same:
  assumes "distinct (map r_id xs)" and "find (\<lambda>x. r_id x = i) xs = Some r"
  shows "map (\<lambda>x. if r_id x = i then r else x) xs = xs"
  using assms
proof (induction xs)
  case Nil
  then show ?case by simp
next
  case (Cons a xs)
  show ?case
  proof (cases "r_id a = i")
    case True
    with Cons.prems have "a = r" by simp
    moreover from Cons.prems(1) have "r_id a \<notin> r_id ` set xs" by simp
    with True have "\<forall>x \<in> set xs. r_id x \<noteq> i" by (metis imageI)
    ultimately show ?thesis using True by (simp add: map_idI)
  next
    case False
    with Cons show ?thesis by simp
  qed
qed

lemma commit_report_rows:
  assumes "get_report st i = Some r" and "distinct (map r_id (reports st))"
  shows "reports (commit_report st db_now r new)
           = map (\<lambda>x. if r_id x = i then (if new = r then r else new\<lparr>r_updated_on := db_now\<rparr>) else x)
               (reports st)"
    and "attachments (commit_report st db_now r new) = attachments st"
proof -
  from assms(1) have rid: "r_id r = i" by (rule get_report_id)
  from assms(1) have f: "find (\<lambda>x. r_id x = i) (reports st) = Some r"
    by (simp add: get_report_def)
  show "reports (commit_report st db_now r new)
           = map (\<lambda>x. if r_id x = i then (if new = r then r else new\<lparr>r_updated_on := db_now\<rparr>) else x)
               (reports st)"
    using rid map_replace_same[OF assms(2) f] by (simp add: commit_report_def)
  show "attachments (commit_report st db_now r new) = attachments st"
    by (simp add: commit_report_def)
qed

text \<open>
  C1 as amended. On a stored, non-deleted report (ids being the primary key),
  \<open>admin_action\<close> with flag, unflag or delete answers with the redirect and changes
  the database in that report's row only: the flag fields or \<open>deleted\<close> as the
  action says, and \<open>updated_on\<close>; no other row, no other table, and there is no
  table of audit entries to write to. The legacy handler, for an audit action other
  than \<open>none\<close>, first commits one new audit entry that carries the chosen action;
  for delete it then commits, in a second transaction, the report marked deleted; for
  any other action the audit entry is its only write.
\<close>

theorem moderation_writes:
  assumes found: "get_report st i = Some r" and live: "\<not> r_deleted r"
    and pk: "distinct (map r_id (reports st))"
    and act: "action = ''flag'' \<or> action = ''unflag'' \<or> action = ''delete''"
    and lact: "laction \<noteq> ''none''"
  shows
    "(\<exists>r'. admin_action st i action reason admin_user now db_now
             = (st\<lparr>reports := map (\<lambda>x. if r_id x = i then r' else x) (reports st)\<rparr>,
                RedirectResponse ''/admin'' 303)
           \<and> (action = ''flag'' \<longrightarrow>
                 r_is_flagged r'
                 \<and> r_flag_reason r' = Some (if reason = [] then ''flagged by admin'' else reason)
                 \<and> r_flagged_on r' = Some now \<and> r_flagged_by r' = Some admin_user
                 \<and> r_deleted r' = r_deleted r)
           \<and> (action = ''unflag'' \<longrightarrow>
                 \<not> r_is_flagged r' \<and> r_flag_reason r' = None \<and> r_flagged_on r' = None
                 \<and> r_flagged_by r' = None \<and> r_deleted r' = r_deleted r)
           \<and> (action = ''delete'' \<longrightarrow>
                 r_deleted r' \<and> r_is_flagged r' = r_is_flagged r
                 \<and> r_flag_reason r' = r_flag_reason r \<and> r_flagged_on r' = r_flagged_on r
                 \<and> r_flagged_by r' = r_flagged_by r)
           \<and> r'\<lparr>r_is_flagged := r_is_flagged r, r_flag_reason := r_flag_reason r,
                 r_flagged_on := r_flagged_on r, r_flagged_by := r_flagged_by r,
                 r_deleted := r_deleted r, r_updated_on := r_updated_on r\<rparr> = r)
     \<and> (\<exists>e. au_report_id e = lid \<and> au_performed_by e = performed_by \<and> au_action e = laction
              \<and> au_comment e = comment \<and> au_created_on e = now_utc \<and> \<not> au_deleted e
           \<and> (laction = ''delete'' \<longrightarrow>
                 audit_submit_commits lst lid performed_by laction comment now_utc
                   = [lst\<lparr>l_report_audit := l_report_audit lst @ [e]\<rparr>,
                      lst\<lparr>l_report_audit := l_report_audit lst @ [e],
                          l_reports := map (\<lambda>x. if lr_id x = lid
                                                 then x\<lparr>lr_deleted := True,
                                                        lr_deleted_on := Some now_utc,
                                                        lr_updated_on := now_utc\<rparr>
                                                 else x) (l_reports lst)\<rparr>])
           \<and> (laction \<noteq> ''delete'' \<longrightarrow>
                 audit_submit_commits lst lid performed_by laction comment now_utc
                   = [lst\<lparr>l_report_audit := l_report_audit lst @ [e]\<rparr>]))"
proof (rule conjI)
  define upd where "upd =
    (if action = ''flag'' then
       r\<lparr>r_is_flagged := True,
         r_flag_reason := Some (if reason = [] then ''flagged by admin'' else reason),
         r_flagged_on := Some now, r_flagged_by := Some admin_user\<rparr>
     else if action = ''unflag'' then
       r\<lparr>r_is_flagged := False, r_flag_reason := None, r_flagged_on := None, r_flagged_by := None\<rparr>
     else r\<lparr>r_deleted := True\<rparr>)"
  define r' where "r' = (if upd = r then r else upd\<lparr>r_updated_on := db_now\<rparr>)"
  from act have res: "admin_action st i action reason admin_user now db_now
                  = (commit_report st db_now r upd, RedirectResponse ''/admin'' 303)"
    using found live by (auto simp: admin_action_def upd_def)
  have "commit_report st db_now r upd
          = st\<lparr>reports := map (\<lambda>x. if r_id x = i then r' else x) (reports st)\<rparr>"
    using commit_report_rows[OF found pk, of db_now upd]
    by (simp add: r'_def)
  with res have eq: "admin_action st i action reason admin_user now db_now
             = (st\<lparr>reports := map (\<lambda>x. if r_id x = i then r' else x) (reports st)\<rparr>,
                RedirectResponse ''/admin'' 303)"
    by simp
  have same: "r_is_flagged r' = r_is_flagged upd" "r_flag_reason r' = r_flag_reason upd"
    "r_flagged_on r' = r_flagged_on upd" "r_flagged_by r' = r_flagged_by upd"
    "r_deleted r' = r_deleted upd"
    by (cases "upd = r"; simp add: r'_def)+
  have flag: "action = ''flag'' \<longrightarrow>
                 r_is_flagged r'
                 \<and> r_flag_reason r' = Some (if reason = [] then ''flagged by admin'' else reason)
                 \<and> r_flagged_on r' = Some now \<and> r_flagged_by r' = Some admin_user
                 \<and> r_deleted r' = r_deleted r"
    by (simp add: same) (simp add: upd_def)
  have unflag: "action = ''unflag'' \<longrightarrow>
                 \<not> r_is_flagged r' \<and> r_flag_reason r' = None \<and> r_flagged_on r' = None
                 \<and> r_flagged_by r' = None \<and> r_deleted r' = r_deleted r"
    by (simp add: same) (simp add: upd_def)
  have delete: "action = ''delete'' \<longrightarrow>
                 r_deleted r' \<and> r_is_flagged r' = r_is_flagged r
                 \<and> r_flag_reason r' = r_flag_reason r \<and> r_flagged_on r' = r_flagged_on r
                 \<and> r_flagged_by r' = r_flagged_by r"
    by (simp add: same) (simp add: upd_def)
  have rest: "r'\<lparr>r_is_flagged := r_is_flagged r, r_flag_reason := r_flag_reason r,
                 r_flagged_on := r_flagged_on r, r_flagged_by := r_flagged_by r,
                 r_deleted := r_deleted r, r_updated_on := r_updated_on r\<rparr> = r"
    by (cases "upd = r") (auto simp: r'_def upd_def)
  from eq flag unflag delete rest
  show "\<exists>r'. admin_action st i action reason admin_user now db_now
             = (st\<lparr>reports := map (\<lambda>x. if r_id x = i then r' else x) (reports st)\<rparr>,
                RedirectResponse ''/admin'' 303)
           \<and> (action = ''flag'' \<longrightarrow>
                 r_is_flagged r'
                 \<and> r_flag_reason r' = Some (if reason = [] then ''flagged by admin'' else reason)
                 \<and> r_flagged_on r' = Some now \<and> r_flagged_by r' = Some admin_user
                 \<and> r_deleted r' = r_deleted r)
           \<and> (action = ''unflag'' \<longrightarrow>
                 \<not> r_is_flagged r' \<and> r_flag_reason r' = None \<and> r_flagged_on r' = None
                 \<and> r_flagged_by r' = None \<and> r_deleted r' = r_deleted r)
           \<and> (action = ''delete'' \<longrightarrow>
                 r_deleted r' \<and> r_is_flagged r' = r_is_flagged r
                 \<and> r_flag_reason r' = r_flag_reason r \<and> r_flagged_on r' = r_flagged_on r
                 \<and> r_flagged_by r' = r_flagged_by r)
           \<and> r'\<lparr>r_is_flagged := r_is_flagged r, r_flag_reason := r_flag_reason r,
                 r_flagged_on := r_flagged_on r, r_flagged_by := r_flagged_by r,
                 r_deleted := r_deleted r, r_updated_on := r_updated_on r\<rparr> = r"
    by blast
next
  let ?e = "\<lparr>au_report_id = lid, au_performed_by = performed_by, au_action = laction,
             au_comment = comment, au_created_on = now_utc, au_updated_on = now_utc,
             au_deleted = False\<rparr>"
  have "au_report_id ?e = lid \<and> au_performed_by ?e = performed_by \<and> au_action ?e = laction
              \<and> au_comment ?e = comment \<and> au_created_on ?e = now_utc \<and> \<not> au_deleted ?e
           \<and> (laction = ''delete'' \<longrightarrow>
                 audit_submit_commits lst lid performed_by laction comment now_utc
                   = [lst\<lparr>l_report_audit := l_report_audit lst @ [?e]\<rparr>,
                      lst\<lparr>l_report_audit := l_report_audit lst @ [?e],
                          l_reports := map (\<lambda>x. if lr_id x = lid
                                                 then x\<lparr>lr_deleted := True,
                                                        lr_deleted_on := Some now_utc,
                                                        lr_updated_on := now_utc\<rparr>
                                                 else x) (l_reports lst)\<rparr>])
           \<and> (laction \<noteq> ''delete'' \<longrightarrow>
                 audit_submit_commits lst lid performed_by laction comment now_utc
                   = [lst\<lparr>l_report_audit := l_report_audit lst @ [?e]\<rparr>])"
    using lact by (simp add: audit_submit_commits_def insert_simple_def Let_def)
  then show "\<exists>e. au_report_id e = lid \<and> au_performed_by e = performed_by \<and> au_action e = laction
              \<and> au_comment e = comment \<and> au_created_on e = now_utc \<and> \<not> au_deleted e
           \<and> (laction = ''delete'' \<longrightarrow>
                 audit_submit_commits lst lid performed_by laction comment now_utc
                   = [lst\<lparr>l_report_audit := l_report_audit lst @ [e]\<rparr>,
                      lst\<lparr>l_report_audit := l_report_audit lst @ [e],
                          l_reports := map (\<lambda>x. if lr_id x = lid
                                                 then x\<lparr>lr_deleted := True,
                                                        lr_deleted_on := Some now_utc,
                                                        lr_updated_on := now_utc\<rparr>
                                                 else x) (l_reports lst)\<rparr>])
           \<and> (laction \<noteq> ''delete'' \<longrightarrow>
                 audit_submit_commits lst lid performed_by laction comment now_utc
                   = [lst\<lparr>l_report_audit := l_report_audit lst @ [e]\<rparr>])"
    by (rule exI)
qed


theorem moderation_writes_witness:
  "get_report sample_store 1 = Some sample_report \<and> \<not> r_deleted sample_report
   \<and> distinct (map r_id (reports sample_store))
   \<and> (\<exists>r'. admin_action sample_store 1 ''flag'' ''phishing'' ''admin'' 500 501
             = (sample_store\<lparr>reports := map (\<lambda>x. if r_id x = 1 then r' else x) (reports sample_store)\<rparr>,
                RedirectResponse ''/admin'' 303)
          \<and> r_is_flagged r' \<and> r_flag_reason r' = Some ''phishing'' \<and> r_flagged_on r' = Some 500
          \<and> r_flagged_by r' = Some ''admin'')
   \<and> (\<exists>e. au_report_id e = 1 \<and> au_action e = ''delete''
          \<and> audit_submit_commits sample_legacy_store 1 None ''delete'' ''spam'' 600
              = [sample_legacy_store\<lparr>l_report_audit := l_report_audit sample_legacy_store @ [e]\<rparr>,
                 sample_legacy_store\<lparr>l_report_audit := l_report_audit sample_legacy_store @ [e],
                          l_reports := map (\<lambda>x. if lr_id x = 1
                                                 then x\<lparr>lr_deleted := True,
                                                        lr_deleted_on := Some 600,
                                                        lr_updated_on := 600\<rparr>
                                                 else x) (l_reports sample_legacy_store)\<rparr>])"
proof -
  have h1: "get_report sample_store 1 = Some sample_report"
    by (simp add: get_report_def sample_store_def sample_report_def)
  have h2: "\<not> r_deleted sample_report"
    by (simp add: sample_report_def)
  have h3: "distinct (map r_id (reports sample_store))"
    by (simp add: sample_store_def)
  have h4: "''flag'' = ''flag'' \<or> ''flag'' = ''unflag'' \<or> ''flag'' = ''delete''"
    by simp
  have h5: "''delete'' \<noteq> ''none''"
    by simp
  note W = moderation_writes[OF h1 h2 h3 h4 h5, where reason = "''phishing''"
      and admin_user = "''admin''" and now = 500 and db_now = 501
      and lst = sample_legacy_store and lid = 1 and performed_by = None
      and comment = "''spam''" and now_utc = 600]
  from W[THEN conjunct1]
  have web: "\<exists>r'. admin_action sample_store 1 ''flag'' ''phishing'' ''admin'' 500 501
             = (sample_store\<lparr>reports := map (\<lambda>x. if r_id x = 1 then r' else x) (reports sample_store)\<rparr>,
                RedirectResponse ''/admin'' 303)
          \<and> r_is_flagged r' \<and> r_flag_reason r' = Some ''phishing'' \<and> r_flagged_on r' = Some 500
          \<and> r_flagged_by r' = Some ''admin''"
    by auto
  from W[THEN conjunct2]
  have legacy: "\<exists>e. au_report_id e = 1 \<and> au_action e = ''delete''
          \<and> audit_submit_commits sample_legacy_store 1 None ''delete'' ''spam'' 600
              = [sample_legacy_store\<lparr>l_report_audit := l_report_audit sample_legacy_store @ [e]\<rparr>,
                 sample_legacy_store\<lparr>l_report_audit := l_report_audit sample_legacy_store @ [e],
                          l_reports := map (\<lambda>x. if lr_id x = 1
                                                 then x\<lparr>lr_deleted := True,
                                                        lr_deleted_on := Some 600,
                                                        lr_updated_on := 600\<rparr>
                                                 else x) (l_reports sample_legacy_store)\<rparr>]"
    by auto
  from h1 h2 h3 web legacy show ?thesis by blast
qed

text \<open>
  C1 as stated fails. Flagging report 1 in the web application leaves a database that
  holds the flagged report and its attachment and nothing else: no audit entry is
  written. In the legacy handler a delete commits two database states one after the
  other; in the first the audit entry exists and the report is not deleted.
\<close>

theorem audit_entry_counterexample:
  "admin_action sample_store 1 ''flag'' ''phishing'' ''admin'' 500 501
     = (\<lparr>reports = [sample_report\<lparr>r_is_flagged := True, r_flag_reason := Some ''phishing'',
                                   r_flagged_on := Some 500, r_flagged_by := Some ''admin'',
                                   r_updated_on := 501\<rparr>],
         attachments = [sample_attachment]\<rparr>,
        RedirectResponse ''/admin'' 303)
   \<and> audit_submit_commits sample_legacy_store 1 None ''delete'' ''spam'' 600
     = [\<lparr>l_reports = [sample_legacy_report],
         l_report_links = [],
         l_report_audit =
           [\<lparr>au_report_id = 1, au_performed_by = None, au_action = ''delete'',
             au_comment = ''spam'', au_created_on = 600, au_updated_on = 600,
             au_deleted = False\<rparr>]\<rparr>,
        \<lparr>l_reports = [sample_legacy_report\<lparr>lr_deleted := True, lr_deleted_on := Some 600,
                                            lr_updated_on := 600\<rparr>],
         l_report_links = [],
         l_report_audit =
           [\<lparr>au_report_id = 1, au_performed_by = None, au_action = ''delete'',
             au_comment = ''spam'', au_created_on = 600, au_updated_on = 600,
             au_deleted = False\<rparr>]\<rparr>]
   \<and> \<not> lr_deleted sample_legacy_report"
  by code_simp

end
